theory Spec2Isabelle
  imports Main "HOL-Library.Sublist"
begin

section \<open>JavaScript values and strings\<close>

text \<open>
  A document is a JavaScript string; it is modelled as a \<^typ>\<open>string\<close> whose characters
  stand for the UTF-16 code units below 256. White space (\<open>\s\<close> and \<open>trim\<close>) is then
  tab, line feed, vertical tab, form feed, carriage return, space and no-break space;
  the line terminators that \<open>.\<close> refuses are line feed and carriage return.
\<close>

definition is_space :: "char \<Rightarrow> bool" where
  "is_space c = (c \<in> set [CHR 0x09, CHR 0x0A, CHR 0x0B, CHR 0x0C, CHR 0x0D, CHR 0x20, CHR 0xA0])"

definition is_digit :: "char \<Rightarrow> bool" where
  "is_digit c = (c \<in> set ''0123456789'')"

definition is_word :: "char \<Rightarrow> bool" where
  "is_word c = (c \<in> set ''abcdefghijklmnopqrstuvwxyzABCDEFGHIJKLMNOPQRSTUVWXYZ0123456789_'')"

definition upper :: "char \<Rightarrow> char" where
  "upper c = (case map_of (zip ''abcdefghijklmnopqrstuvwxyz'' ''ABCDEFGHIJKLMNOPQRSTUVWXYZ'') c of
                Some u \<Rightarrow> u | None \<Rightarrow> c)"

text \<open>\<open>String.prototype.trim\<close>.\<close>

definition js_trim :: "string \<Rightarrow> string" where
  "js_trim s = rev (dropWhile is_space (rev (dropWhile is_space s)))"

text \<open>\<open>String.prototype.split\<close> with a string separator. The empty separator splits into
  single characters; every other separator yields at least one piece.\<close>

fun split_loop :: "string \<Rightarrow> string \<Rightarrow> string \<Rightarrow> string list" where
  "split_loop sep cur [] = [rev cur]"
| "split_loop sep cur (c # cs) =
     (if prefix sep (c # cs) then rev cur # split_loop sep [] (drop (length sep - 1) cs)
      else split_loop sep (c # cur) cs)"

definition js_split :: "string \<Rightarrow> string \<Rightarrow> string list" where
  "js_split sep s = (if sep = [] then map (\<lambda>c. [c]) s else split_loop sep [] s)"

text \<open>\<open>String.prototype.includes\<close>, \<open>startsWith\<close> and \<open>substring\<close> (the latter for
  \<open>a \<le> b\<close>, the only way the source calls it).\<close>

fun js_includes :: "string \<Rightarrow> string \<Rightarrow> bool" where
  "js_includes [] sub = (sub = [])"
| "js_includes (c # cs) sub = (prefix sub (c # cs) \<or> js_includes cs sub)"

definition js_startsWith :: "string \<Rightarrow> string \<Rightarrow> bool" where
  "js_startsWith s pre = prefix pre s"

definition js_substring :: "string \<Rightarrow> nat \<Rightarrow> nat \<Rightarrow> string" where
  "js_substring s a b = take (b - a) (drop a s)"

text \<open>\<open>Array.prototype.pop\<close> read as an expression: the last element, \<open>undefined\<close> on the
  empty array.\<close>

definition js_pop :: "'a list \<Rightarrow> 'a option" where
  "js_pop xs = (if xs = [] then None else Some (last xs))"

text \<open>\<open>parseInt(s, 10)\<close>: leading white space, an optional sign, then the longest run of
  decimal digits; \<open>NaN\<close> (here \<open>None\<close>) when there is no digit.\<close>

definition digit_val :: "char \<Rightarrow> nat" where
  "digit_val c = (case map_of (zip ''0123456789'' [0, 1, 2, 3, 4, 5, 6, 7, 8, 9]) c of
                    Some d \<Rightarrow> d | None \<Rightarrow> 0)"

definition digits_val :: "string \<Rightarrow> nat" where
  "digits_val ds = foldl (\<lambda>a d. 10 * a + digit_val d) 0 ds"

definition parseInt :: "string \<Rightarrow> int option" where
  "parseInt s =
     (let t = dropWhile is_space s;
          neg = (case t of [] \<Rightarrow> False | c # _ \<Rightarrow> c = CHR ''-'');
          u = (case t of [] \<Rightarrow> [] | c # r \<Rightarrow> if c = CHR ''-'' \<or> c = CHR ''+'' then r else t);
          ds = takeWhile is_digit u
      in if ds = [] then None
         else Some (if neg then - int (digits_val ds) else int (digits_val ds)))"

subsection \<open>Plain objects used as dictionaries\<close>

text \<open>
  The source keeps its code tables and its identifier maps in object literals
  (\<open>Record<string, string>\<close>). Reading \<open>obj[key]\<close> finds an own property or, failing that,
  a member inherited from \<open>Object.prototype\<close>, which is a function or an object and
  never a string. \<open>Inherited k\<close> stands for that member; writing to the key
  \<open>__proto__\<close> with a string value creates no property.
\<close>

datatype 'a jsprop = Own 'a | Inherited string

definition object_prototype_keys :: "string list" where
  "object_prototype_keys =
     [''constructor'', ''__defineGetter__'', ''__defineSetter__'', ''hasOwnProperty'',
      ''__lookupGetter__'', ''__lookupSetter__'', ''isPrototypeOf'', ''propertyIsEnumerable'',
      ''toString'', ''valueOf'', ''__proto__'', ''toLocaleString'']"

definition obj_get :: "(string \<rightharpoonup> 'a) \<Rightarrow> string \<Rightarrow> 'a jsprop option" where
  "obj_get m k =
     (case m k of Some v \<Rightarrow> Some (Own v)
      | None \<Rightarrow> if k \<in> set object_prototype_keys then Some (Inherited k) else None)"

definition obj_set :: "(string \<rightharpoonup> 'a) \<Rightarrow> string \<Rightarrow> 'a \<Rightarrow> (string \<rightharpoonup> 'a)" where
  "obj_set m k v = (if k = ''__proto__'' then m else m(k \<mapsto> v))"

text \<open>\<open>obj[key] || fallback\<close> on a table of strings: the empty string and \<open>undefined\<close>
  are falsy, an inherited member is truthy.\<close>

fun or_default :: "string jsprop option \<Rightarrow> string \<Rightarrow> string jsprop" where
  "or_default None d = Own d"
| "or_default (Some (Own v)) d = (if v = [] then Own d else Own v)"
| "or_default (Some (Inherited k)) d = Inherited k"

text \<open>The decimal numeral of a number, as \<open>String(n)\<close> gives it.\<close>

function dec :: "nat \<Rightarrow> string" where
  "dec n = (if n < 10 then [''0123456789'' ! n] else dec (n div 10) @ [''0123456789'' ! (n mod 10)])"
  by pat_completeness auto
termination
  by (relation "measure id") auto

declare dec.simps [simp del]

text \<open>
  The dictionary of column lists holds arrays, and an array written to the key
  \<open>__proto__\<close> becomes the prototype of the dictionary. A key that is not an own property
  is then looked up in that array: its indices, \<open>length\<close>, and the members of
  \<open>Array.prototype\<close> and \<open>Object.prototype\<close>; \<open>__proto__\<close> itself reads the array.
\<close>

definition array_prototype_keys :: "string list" where
  "array_prototype_keys =
     [''at'', ''concat'', ''copyWithin'', ''fill'', ''find'', ''findIndex'', ''findLast'',
      ''findLastIndex'', ''lastIndexOf'', ''pop'', ''push'', ''reverse'', ''shift'', ''unshift'',
      ''slice'', ''sort'', ''splice'', ''includes'', ''indexOf'', ''join'', ''keys'', ''entries'',
      ''values'', ''forEach'', ''filter'', ''flat'', ''flatMap'', ''map'', ''every'', ''some'',
      ''reduce'', ''reduceRight'', ''toReversed'', ''toSorted'', ''toSpliced'', ''with'']"

record 'a protobj =
  own_props :: "string \<rightharpoonup> 'a list"
  proto_array :: "'a list option"

definition empty_protobj :: "'a protobj" where
  "empty_protobj = \<lparr>own_props = Map.empty, proto_array = None\<rparr>"

definition protobj_set :: "'a protobj \<Rightarrow> string \<Rightarrow> 'a list \<Rightarrow> 'a protobj" where
  "protobj_set m k v =
     (if k = ''__proto__'' then m\<lparr>proto_array := Some v\<rparr>
      else m\<lparr>own_props := (own_props m)(k \<mapsto> v)\<rparr>)"

text \<open>What such a lookup finds: a column list (an own property, or the prototype array
  itself), the array's \<open>length\<close>, one of its elements, or an inherited function or
  object.\<close>

datatype 'a protoval = POwn "'a list" | PLength nat | PElem 'a | PMember string

definition protobj_get :: "'a protobj \<Rightarrow> string \<Rightarrow> 'a protoval option" where
  "protobj_get m k =
     (case own_props m k of
        Some v \<Rightarrow> Some (POwn v)
      | None \<Rightarrow>
          (case proto_array m of
             None \<Rightarrow> if k \<in> set object_prototype_keys then Some (PMember k) else None
           | Some arr \<Rightarrow>
               if k = ''__proto__'' then Some (POwn arr)
               else if k = ''length'' then Some (PLength (length arr))
               else (case filter (\<lambda>i. dec i = k) [0..<length arr] of
                       i # _ \<Rightarrow> Some (PElem (arr ! i))
                     | [] \<Rightarrow>
                         if k \<in> set array_prototype_keys \<or> k \<in> set object_prototype_keys
                         then Some (PMember k) else None)))"

section \<open>Regular expressions\<close>

text \<open>
  The patterns of the source use literals, single-character classes under the
  quantifiers \<open>*\<close>, \<open>+\<close> and \<open>*?\<close>, an optional group, alternation, capture groups, \<open>\b\<close>
  and \<open>$\<close>. The matcher is a backtracking matcher in continuation-passing style that tries
  the alternatives in the order ECMAScript does: a greedy quantifier takes the longest run
  first, a lazy one the shortest. It threads the character before the current position,
  which \<open>\b\<close> reads.
\<close>

datatype cls = CAny | CDot | CChr char | CNot char | CSpace | CDigit

fun cmem :: "cls \<Rightarrow> char \<Rightarrow> bool" where
  "cmem CAny c = True"
| "cmem CDot c = (c \<noteq> CHR 0x0A \<and> c \<noteq> CHR 0x0D)"
| "cmem (CChr d) c = (c = d)"
| "cmem (CNot d) c = (c \<noteq> d)"
| "cmem CSpace c = is_space c"
| "cmem CDigit c = is_digit c"

datatype re = Lit string | LitI string | Cl cls | Star cls | Plus cls | LazyStar cls
  | Opt re | Seq re re | Alt re re | Grp nat re | WordB | Eos

type_synonym caps = "nat \<rightharpoonup> string"

fun star_g :: "cls \<Rightarrow> char option \<Rightarrow> string \<Rightarrow> (char option \<Rightarrow> string \<Rightarrow> 'a option) \<Rightarrow> 'a option" where
  "star_g c p [] k = k p []"
| "star_g c p (x # xs) k =
     (if cmem c x then (case star_g c (Some x) xs k of Some r \<Rightarrow> Some r | None \<Rightarrow> k p (x # xs))
      else k p (x # xs))"

fun star_l :: "cls \<Rightarrow> char option \<Rightarrow> string \<Rightarrow> (char option \<Rightarrow> string \<Rightarrow> 'a option) \<Rightarrow> 'a option" where
  "star_l c p [] k = k p []"
| "star_l c p (x # xs) k =
     (case k p (x # xs) of Some r \<Rightarrow> Some r
      | None \<Rightarrow> if cmem c x then star_l c (Some x) xs k else None)"

fun prefix_i :: "string \<Rightarrow> string \<Rightarrow> bool" where
  "prefix_i [] s = True"
| "prefix_i (a # as) [] = False"
| "prefix_i (a # as) (x # xs) = (upper a = upper x \<and> prefix_i as xs)"

definition word_at :: "char option \<Rightarrow> bool" where
  "word_at p = (case p of None \<Rightarrow> False | Some c \<Rightarrow> is_word c)"

definition next_char :: "string \<Rightarrow> char option" where
  "next_char s = (case s of [] \<Rightarrow> None | x # xs \<Rightarrow> Some x)"

definition prev_after :: "char option \<Rightarrow> string \<Rightarrow> char option" where
  "prev_after p w = (if w = [] then p else Some (last w))"

fun mt :: "re \<Rightarrow> char option \<Rightarrow> string \<Rightarrow> caps \<Rightarrow>
    (char option \<Rightarrow> string \<Rightarrow> caps \<Rightarrow> 'a option) \<Rightarrow> 'a option" where
  "mt (Lit l) p s c k = (if prefix l s then k (prev_after p l) (drop (length l) s) c else None)"
| "mt (LitI l) p s c k =
     (if prefix_i l s then k (prev_after p (take (length l) s)) (drop (length l) s) c else None)"
| "mt (Cl cl) p s c k =
     (case s of [] \<Rightarrow> None | x # xs \<Rightarrow> if cmem cl x then k (Some x) xs c else None)"
| "mt (Star cl) p s c k = star_g cl p s (\<lambda>p' s'. k p' s' c)"
| "mt (Plus cl) p s c k =
     (case s of [] \<Rightarrow> None
      | x # xs \<Rightarrow> if cmem cl x then star_g cl (Some x) xs (\<lambda>p' s'. k p' s' c) else None)"
| "mt (LazyStar cl) p s c k = star_l cl p s (\<lambda>p' s'. k p' s' c)"
| "mt (Opt r) p s c k = (case mt r p s c k of Some x \<Rightarrow> Some x | None \<Rightarrow> k p s c)"
| "mt (Seq a b) p s c k = mt a p s c (\<lambda>p' s' c'. mt b p' s' c' k)"
| "mt (Alt a b) p s c k = (case mt a p s c k of Some x \<Rightarrow> Some x | None \<Rightarrow> mt b p s c k)"
| "mt (Grp n r) p s c k =
     mt r p s c (\<lambda>p' s' c'. k p' s' (c'(n \<mapsto> take (length s - length s') s)))"
| "mt WordB p s c k = (if word_at p \<noteq> word_at (next_char s) then k p s c else None)"
| "mt Eos p s c k = (if s = [] then k p s c else None)"

text \<open>A sequence of pattern items, as a pattern is written.\<close>

fun cat :: "re list \<Rightarrow> re" where
  "cat [] = Lit []"
| "cat [r] = r"
| "cat (r # rs) = Seq r (cat rs)"

text \<open>Whether a pattern can match the empty string.\<close>

primrec nullable :: "re \<Rightarrow> bool" where
  "nullable (Lit l) = (l = [])"
| "nullable (LitI l) = (l = [])"
| "nullable (Cl cl) = False"
| "nullable (Star cl) = True"
| "nullable (Plus cl) = False"
| "nullable (LazyStar cl) = True"
| "nullable (Opt r) = True"
| "nullable (Seq a b) = (nullable a \<and> nullable b)"
| "nullable (Alt a b) = (nullable a \<or> nullable b)"
| "nullable (Grp n r) = nullable r"
| "nullable WordB = True"
| "nullable Eos = True"

text \<open>A match: where it starts, the matched text (\<open>match[0]\<close>), the capture groups, and
  what follows it in the subject.\<close>

record rmatch =
  m_index :: nat
  m_text :: string
  m_caps :: caps
  m_prev :: "char option"
  m_rest :: string

definition match_here :: "re \<Rightarrow> char option \<Rightarrow> string \<Rightarrow> (char option \<times> string \<times> caps) option" where
  "match_here r p s = mt r p s Map.empty (\<lambda>p' s' c'. Some (p', s', c'))"

fun search :: "re \<Rightarrow> char option \<Rightarrow> nat \<Rightarrow> string \<Rightarrow> rmatch option" where
  "search r p i [] =
     (case match_here r p [] of
        Some (p', s', c) \<Rightarrow>
          Some \<lparr>m_index = i, m_text = [], m_caps = c, m_prev = p', m_rest = s'\<rparr>
      | None \<Rightarrow> None)"
| "search r p i (x # xs) =
     (case match_here r p (x # xs) of
        Some (p', s', c) \<Rightarrow>
          Some \<lparr>m_index = i, m_text = take (Suc (length xs) - length s') (x # xs), m_caps = c,
                m_prev = p', m_rest = s'\<rparr>
      | None \<Rightarrow> search r (Some x) (Suc i) xs)"

text \<open>A capture group read as a string: \<open>undefined\<close> (a group that took no part in the
  match) reads as the empty string, which is what \<open>match[n] || ""\<close> gives; every other
  group the source reads always takes part.\<close>

definition cap :: "rmatch \<Rightarrow> nat \<Rightarrow> string" where
  "cap m n = (case m_caps m n of Some s \<Rightarrow> s | None \<Rightarrow> [])"

text \<open>What a pattern can match, without the order of the alternatives: an upper bound on
  the matcher, used to reason about the text a group captured.\<close>

primrec den :: "re \<Rightarrow> string \<Rightarrow> caps \<Rightarrow> caps \<Rightarrow> bool" where
  "den (Lit l) w c c' = (w = l \<and> c' = c)"
| "den (LitI l) w c c' = (map upper w = map upper l \<and> c' = c)"
| "den (Cl cl) w c c' = (\<exists>x. w = [x] \<and> cmem cl x \<and> c' = c)"
| "den (Star cl) w c c' = ((\<forall>x \<in> set w. cmem cl x) \<and> c' = c)"
| "den (Plus cl) w c c' = (w \<noteq> [] \<and> (\<forall>x \<in> set w. cmem cl x) \<and> c' = c)"
| "den (LazyStar cl) w c c' = ((\<forall>x \<in> set w. cmem cl x) \<and> c' = c)"
| "den (Opt r) w c c' = ((w = [] \<and> c' = c) \<or> den r w c c')"
| "den (Seq a b) w c c' = (\<exists>w1 w2 c1. w = w1 @ w2 \<and> den a w1 c c1 \<and> den b w2 c1 c')"
| "den (Alt a b) w c c' = (den a w c c' \<or> den b w c c')"
| "den (Grp n r) w c c' = (\<exists>c1. den r w c c1 \<and> c' = c1(n \<mapsto> w))"
| "den WordB w c c' = (w = [] \<and> c' = c)"
| "den Eos w c c' = (w = [] \<and> c' = c)"

lemma star_g_sound:
  "star_g cl p s k = Some x \<Longrightarrow>
   \<exists>w s' p'. s = w @ s' \<and> (\<forall>y \<in> set w. cmem cl y) \<and> k p' s' = Some x"
proof (induction s arbitrary: p)
  case Nil
  then show ?case by auto
next
  case (Cons a s)
  show ?case
  proof (cases "cmem cl a \<and> star_g cl (Some a) s k = Some x")
    case True
    then obtain w s' p' where "s = w @ s'" "\<forall>y \<in> set w. cmem cl y" "k p' s' = Some x"
      using Cons.IH by blast
    with True have "a # s = (a # w) @ s' \<and> (\<forall>y \<in> set (a # w). cmem cl y) \<and> k p' s' = Some x"
      by simp
    then show ?thesis by blast
  next
    case False
    with Cons.prems have "k p (a # s) = Some x"
      by (auto split: if_splits option.splits)
    then have "a # s = [] @ (a # s) \<and> (\<forall>y \<in> set []. cmem cl y) \<and> k p (a # s) = Some x"
      by simp
    then show ?thesis by blast
  qed
qed

lemma star_l_sound:
  "star_l cl p s k = Some x \<Longrightarrow>
   \<exists>w s' p'. s = w @ s' \<and> (\<forall>y \<in> set w. cmem cl y) \<and> k p' s' = Some x"
proof (induction s arbitrary: p)
  case Nil
  then show ?case by auto
next
  case (Cons a s)
  show ?case
  proof (cases "k p (a # s)")
    case (Some r)
    with Cons.prems have "k p (a # s) = Some x" by simp
    then have "a # s = [] @ (a # s) \<and> (\<forall>y \<in> set []. cmem cl y) \<and> k p (a # s) = Some x"
      by simp
    then show ?thesis by blast
  next
    case None
    with Cons.prems have ca: "cmem cl a" and "star_l cl (Some a) s k = Some x"
      by (auto split: if_splits)
    then obtain w s' p' where "s = w @ s'" "\<forall>y \<in> set w. cmem cl y" "k p' s' = Some x"
      using Cons.IH by blast
    with ca have "a # s = (a # w) @ s' \<and> (\<forall>y \<in> set (a # w). cmem cl y) \<and> k p' s' = Some x"
      by simp
    then show ?thesis by blast
  qed
qed

lemma prefix_i_take: "prefix_i l s \<Longrightarrow> map upper (take (length l) s) = map upper l"
  by (induction l s rule: prefix_i.induct) auto

lemma mt_sound:
  "mt r p s c k = Some x \<Longrightarrow> \<exists>w s' p' c'. s = w @ s' \<and> den r w c c' \<and> k p' s' c' = Some x"
proof (induction r arbitrary: p s c k x)
  case (Lit l)
  then show ?case by (auto simp: prefix_def split: if_splits)
next
  case (LitI l)
  then have pi: "prefix_i l s"
    and kk: "k (prev_after p (take (length l) s)) (drop (length l) s) c = Some x"
    by (auto split: if_splits)
  have "s = take (length l) s @ drop (length l) s" by simp
  with pi kk prefix_i_take[OF pi] show ?case
    by (metis den.simps(2))
next
  case (Cl cl)
  then obtain a xs where s: "s = a # xs" and ca: "cmem cl a" and kk: "k (Some a) xs c = Some x"
    by (auto split: list.splits if_splits)
  then have "s = [a] @ xs \<and> den (Cl cl) [a] c c \<and> k (Some a) xs c = Some x" by simp
  then show ?case by blast
next
  case (Star cl)
  then show ?case using star_g_sound[of cl p s "\<lambda>p' s'. k p' s' c" x] by auto
next
  case (Plus cl)
  then obtain a xs where s: "s = a # xs" and ca: "cmem cl a"
    and st: "star_g cl (Some a) xs (\<lambda>p' s'. k p' s' c) = Some x"
    by (auto split: list.splits if_splits)
  from star_g_sound[OF st] obtain w s' p' where
    "xs = w @ s'" "\<forall>y \<in> set w. cmem cl y" "k p' s' c = Some x" by blast
  with s ca have "s = (a # w) @ s' \<and> den (Plus cl) (a # w) c c \<and> k p' s' c = Some x" by simp
  then show ?case by blast
next
  case (LazyStar cl)
  then show ?case using star_l_sound[of cl p s "\<lambda>p' s'. k p' s' c" x] by auto
next
  case (Opt r)
  show ?case
  proof (cases "mt r p s c k")
    case None
    with Opt.prems have "k p s c = Some x" by simp
    then have "s = [] @ s \<and> den (Opt r) [] c c \<and> k p s c = Some x" by simp
    then show ?thesis by blast
  next
    case (Some y)
    with Opt.prems have "mt r p s c k = Some x" by simp
    from Opt.IH[OF this] show ?thesis by auto
  qed
next
  case (Seq a b)
  from Seq.prems have "mt a p s c (\<lambda>p' s' c'. mt b p' s' c' k) = Some x" by simp
  from Seq.IH(1)[OF this] obtain w1 s1 p1 c1 where
    a: "s = w1 @ s1" "den a w1 c c1" "mt b p1 s1 c1 k = Some x" by blast
  from Seq.IH(2)[OF a(3)] obtain w2 s2 p2 c2 where
    b: "s1 = w2 @ s2" "den b w2 c1 c2" "k p2 s2 c2 = Some x" by blast
  from a b have "s = (w1 @ w2) @ s2 \<and> den (Seq a b) (w1 @ w2) c c2 \<and> k p2 s2 c2 = Some x"
    by auto
  then show ?case by blast
next
  case (Alt a b)
  show ?case
  proof (cases "mt a p s c k")
    case None
    with Alt.prems have "mt b p s c k = Some x" by simp
    from Alt.IH(2)[OF this] show ?thesis by auto
  next
    case (Some y)
    with Alt.prems have "mt a p s c k = Some x" by simp
    from Alt.IH(1)[OF this] show ?thesis by auto
  qed
next
  case (Grp n r)
  from Grp.prems have
    "mt r p s c (\<lambda>p' s' c'. k p' s' (c'(n \<mapsto> take (length s - length s') s))) = Some x"
    by simp
  from Grp.IH[OF this] obtain w s' p' c' where
    g: "s = w @ s'" "den r w c c'"
       "k p' s' (c'(n \<mapsto> take (length s - length s') s)) = Some x"
    by blast
  from g(1) have "take (length s - length s') s = w" by simp
  with g have "s = w @ s' \<and> den (Grp n r) w c (c'(n \<mapsto> w)) \<and> k p' s' (c'(n \<mapsto> w)) = Some x"
    by auto
  then show ?case by blast
next
  case WordB
  then show ?case by (auto split: if_splits)
next
  case Eos
  then show ?case by (auto split: if_splits)
qed

lemma den_nonempty: "\<not> nullable r \<Longrightarrow> den r w c c' \<Longrightarrow> w \<noteq> []"
proof (induction r arbitrary: w c c')
  case (Seq a b)
  from Seq.prems(2) obtain w1 w2 c1 where
    w: "w = w1 @ w2" "den a w1 c c1" "den b w2 c1 c'" by auto
  from Seq.prems(1) have "\<not> nullable a \<or> \<not> nullable b" by simp
  then show ?case
  proof
    assume "\<not> nullable a"
    from Seq.IH(1)[OF this w(2)] w(1) show ?thesis by simp
  next
    assume "\<not> nullable b"
    from Seq.IH(2)[OF this w(3)] w(1) show ?thesis by simp
  qed
next
  case (Alt a b)
  from Alt.prems(1) have na: "\<not> nullable a" and nb: "\<not> nullable b" by simp_all
  from Alt.prems(2) have "den a w c c' \<or> den b w c c'" by simp
  then show ?case using Alt.IH(1)[OF na] Alt.IH(2)[OF nb] by blast
qed auto

lemma match_here_sound:
  "match_here r p s = Some (p', s', c') \<Longrightarrow> \<exists>w. s = w @ s' \<and> den r w Map.empty c'"
  unfolding match_here_def by (drule mt_sound) auto

text \<open>A match found by \<open>search\<close> splits the subject into the text before it, the matched
  text and the rest.\<close>

lemma search_sound:
  "search r p i s = Some m \<Longrightarrow>
   \<exists>pre. s = pre @ m_text m @ m_rest m \<and> m_index m = i + length pre
         \<and> den r (m_text m) Map.empty (m_caps m)"
proof (induction s arbitrary: p i)
  case Nil
  then obtain p' s' c where mh: "match_here r p [] = Some (p', s', c)"
    and m: "m = \<lparr>m_index = i, m_text = [], m_caps = c, m_prev = p', m_rest = s'\<rparr>"
    by (auto split: option.splits)
  from match_here_sound[OF mh] m show ?case by auto
next
  case (Cons x xs)
  show ?case
  proof (cases "match_here r p (x # xs)")
    case None
    with Cons.prems have "search r (Some x) (Suc i) xs = Some m" by simp
    from Cons.IH[OF this] obtain pre where
      "xs = pre @ m_text m @ m_rest m" "m_index m = Suc i + length pre"
      "den r (m_text m) Map.empty (m_caps m)" by blast
    then have "x # xs = (x # pre) @ m_text m @ m_rest m \<and> m_index m = i + length (x # pre)
        \<and> den r (m_text m) Map.empty (m_caps m)" by simp
    then show ?thesis by blast
  next
    case (Some t)
    then obtain p' s' c where mh: "match_here r p (x # xs) = Some (p', s', c)"
      by (cases t) auto
    with Cons.prems have m: "m = \<lparr>m_index = i,
        m_text = take (Suc (length xs) - length s') (x # xs), m_caps = c, m_prev = p',
        m_rest = s'\<rparr>" by simp
    from match_here_sound[OF mh] obtain w where w: "x # xs = w @ s'" "den r w Map.empty c"
      by blast
    from w(1) have "length (x # xs) = length w + length s'" by (metis length_append)
    then have "Suc (length xs) - length s' = length w" by simp
    then have "take (Suc (length xs) - length s') (x # xs) = w" by (simp add: w(1))
    with m w have "x # xs = [] @ m_text m @ m_rest m \<and> m_index m = i + length ([]::string)
        \<and> den r (m_text m) Map.empty (m_caps m)" by simp
    then show ?thesis by blast
  qed
qed

lemma search_consumes:
  assumes "\<not> nullable r" and "search r p i s = Some m"
  shows "length (m_rest m) < length s"
proof -
  from search_sound[OF assms(2)] obtain pre where
    s: "s = pre @ m_text m @ m_rest m" and d: "den r (m_text m) Map.empty (m_caps m)" by blast
  from den_nonempty[OF assms(1) d] have "m_text m \<noteq> []" .
  then have "0 < length (m_text m)" by simp
  moreover from s have "length s = length pre + length (m_text m) + length (m_rest m)"
    by (metis length_append add.assoc)
  ultimately show ?thesis by linarith
qed

text \<open>
  \<open>str.match(re)\<close> without the \<open>g\<close> flag is the first match. The loop
  \<open>while ((m = re.exec(str)) !== null)\<close> of a \<open>g\<close> pattern resumes after each match; it
  ends because every pattern the source loops over matches at least one character
  (\<open>nullable\<close> is false for each of them), which is also what makes \<open>exec_loop\<close> total.
\<close>

definition js_match :: "re \<Rightarrow> string \<Rightarrow> rmatch option" where
  "js_match r s = search r None 0 s"

function exec_loop :: "re \<Rightarrow> char option \<Rightarrow> nat \<Rightarrow> string \<Rightarrow> rmatch list" where
  "exec_loop r p i s =
     (if nullable r then []
      else (case search r p i s of None \<Rightarrow> []
            | Some m \<Rightarrow> m # exec_loop r (m_prev m) (m_index m + length (m_text m)) (m_rest m)))"
  by pat_completeness auto
termination
  by (relation "measure (\<lambda>(r, p, i, s). length s)") (auto dest: search_consumes)

declare exec_loop.simps [simp del]

definition exec_all :: "re \<Rightarrow> string \<Rightarrow> rmatch list" where
  "exec_all r s = exec_loop r None 0 s"

text \<open>\<open>str.replace(re, rep)\<close> for a \<open>g\<close> pattern and a replacement without \<open>$\<close>.\<close>

function replace_loop :: "re \<Rightarrow> string \<Rightarrow> char option \<Rightarrow> string \<Rightarrow> string" where
  "replace_loop r rep p s =
     (if nullable r then s
      else (case search r p 0 s of None \<Rightarrow> s
            | Some m \<Rightarrow> take (m_index m) s @ rep @ replace_loop r rep (m_prev m) (m_rest m)))"
  by pat_completeness auto
termination
  by (relation "measure (\<lambda>(r, rep, p, s). length s)") (auto dest: search_consumes)

declare replace_loop.simps [simp del]

definition js_replace_all :: "re \<Rightarrow> string \<Rightarrow> string \<Rightarrow> string" where
  "js_replace_all r rep s = replace_loop r rep None s"

text \<open>\<open>re.test(str)\<close>.\<close>

definition js_test :: "re \<Rightarrow> string \<Rightarrow> bool" where
  "js_test r s = (js_match r s \<noteq> None)"

section \<open>Data model\<close>

text \<open>
  The interfaces of \<open>dsxTypes.ts\<close>. A field the interface marks optional, or that the
  extractor leaves unset on an object it builds as \<open>any\<close>, is an \<open>option\<close>. A field
  filled from a dictionary lookup is a \<^typ>\<open>string jsprop\<close>.
\<close>

record DSXParameter =
  p_name :: string
  p_prompt :: string
  p_default :: string
  p_help :: string
  p_type :: "string jsprop"

record DSXColumn =
  col_name :: string
  col_type :: "string jsprop"
  col_nullable :: bool
  derivation :: "string option"

record DSXSource =
  src_name :: string
  src_type :: "string jsprop"
  src_columns :: "DSXColumn list"
  src_sql :: "string option"
  src_where_clauses :: "string list option"
  src_table :: "string option"
  src_connection :: "string option"
  src_database :: "string option"

record DSXTarget =
  tgt_name :: "string option"
  tgt_type :: "string jsprop"
  tgt_columns :: "DSXColumn list option"
  tgt_table :: "string option"
  tgt_dataset :: "string option"
  tgt_mode :: "string option"
  tgt_connection :: "string option"
  tgt_database :: "string option"

record DSXTransform =
  trx_name :: string
  rules :: "string list"
  trx_input :: "string option"
  trx_output :: "string option"
  reject_conditions :: "string list option"

record DSXLookup =
  lk_name :: string
  lk_type :: string
  inputs :: "string list"
  lk_output :: string
  key_columns :: "string list"
  fail_mode :: string
  lookup_type :: "string jsprop option"
  residual_handling :: "string option"

record DSXSqlScript =
  stage :: string
  script_type :: string
  script_sql :: string

record DSXFilter =
  flt_name :: string
  condition :: string
  flt_input :: "string option"
  flt_output :: "string option"

text \<open>An element of \<open>specialized_stages: any[]\<close>; only its \<open>name\<close> is ever read.\<close>

record SpecializedStage =
  sp_name :: "string option"

record DSXFlow =
  link :: string
  flow_from :: "string jsprop"
  flow_to :: "string jsprop"
  flow_columns :: "DSXColumn protoval option"

record Metadata =
  extractedAt :: string
  version :: string
  tokenCount :: "nat option"

record DSXJobInfo =
  name :: string
  description :: string
  job_type :: "string jsprop"
  parameters :: "DSXParameter list"
  sources :: "DSXSource list"
  targets :: "DSXTarget list"
  transforms :: "DSXTransform list"
  sql_scripts :: "DSXSqlScript list"
  lookups :: "DSXLookup list"
  filters :: "DSXFilter list"
  specialized_stages :: "SpecializedStage list"
  flow :: "DSXFlow list"
  metadata :: Metadata

section \<open>Code map tables\<close>

definition jobTypeMap :: "string \<rightharpoonup> string" where
  "jobTypeMap = map_of
     [(''0'', ''Server Job''), (''1'', ''Parallel Job''), (''2'', ''Sequence Job''),
      (''3'', ''Server Routine'')]"

text \<open>\<open>jobTypeMap[jobTypeCode] || `Unknown (${jobTypeCode})`\<close>\<close>

definition job_type_label :: "string \<Rightarrow> string jsprop" where
  "job_type_label code = or_default (obj_get jobTypeMap code) (''Unknown ('' @ code @ '')'')"

definition paramTypeMap :: "string \<rightharpoonup> string" where
  "paramTypeMap = map_of
     [(''1'', ''String''), (''2'', ''Integer''), (''3'', ''Float''), (''4'', ''Pathname''),
      (''5'', ''List''), (''6'', ''Date''), (''7'', ''Time''), (''8'', ''Timestamp''),
      (''13'', ''EnvironmentVar'')]"

text \<open>\<open>paramTypeMap[paramType] || `Unknown (${paramType})`\<close>\<close>

definition param_type_label :: "string \<Rightarrow> string jsprop" where
  "param_type_label code = or_default (obj_get paramTypeMap code) (''Unknown ('' @ code @ '')'')"

definition lookupTypeMap :: "string \<rightharpoonup> string" where
  "lookupTypeMap = map_of [(''0'', ''Normal''), (''1'', ''Sparse''), (''2'', ''Range'')]"

definition typeMap :: "string \<rightharpoonup> string" where
  "typeMap = map_of
     [(''1'', ''CHAR''), (''2'', ''NUMERIC''), (''3'', ''DECIMAL''), (''4'', ''INTEGER''),
      (''5'', ''SMALLINT''), (''6'', ''FLOAT''), (''7'', ''REAL''), (''8'', ''DOUBLE''),
      (''9'', ''DATE''), (''10'', ''TIME''), (''11'', ''TIMESTAMP''), (''12'', ''VARCHAR''),
      (''-1'', ''LONGVARCHAR''), (''-2'', ''BINARY''), (''-3'', ''VARBINARY''),
      (''-4'', ''LONGVARBINARY''), (''-5'', ''BIGINT''), (''-6'', ''TINYINT''), (''-7'', ''BIT''),
      (''-8'', ''WCHAR''), (''-9'', ''WVARCHAR''), (''-10'', ''WLONGVARCHAR''),
      (''91'', ''TYPE_DATE''), (''92'', ''TYPE_TIME''), (''93'', ''TYPE_TIMESTAMP'')]"

text \<open>\<open>mapSqlType\<close>. A missing argument is \<open>None\<close>; \<open>precision && precision !== "0"\<close>
  asks for a non-empty string other than \<open>"0"\<close>.\<close>

definition present_nonzero :: "string option \<Rightarrow> bool" where
  "present_nonzero x = (case x of None \<Rightarrow> False | Some v \<Rightarrow> v \<noteq> [] \<and> v \<noteq> ''0'')"

definition opt_str :: "string option \<Rightarrow> string" where
  "opt_str x = (case x of None \<Rightarrow> ''undefined'' | Some v \<Rightarrow> v)"

definition mapSqlType :: "string \<Rightarrow> string option \<Rightarrow> string option \<Rightarrow> string jsprop" where
  "mapSqlType sqlType precision scale =
     (let typeName = or_default (obj_get typeMap sqlType) (''UNKNOWN('' @ sqlType @ '')'')
      in case typeName of
           Inherited k \<Rightarrow> typeName
         | Own tn \<Rightarrow>
             if tn \<in> set [''NUMERIC'', ''DECIMAL'', ''CHAR'', ''VARCHAR'']
                \<and> present_nonzero precision
             then (if present_nonzero scale
                   then Own (tn @ ''('' @ opt_str precision @ '','' @ opt_str scale @ '')'')
                   else Own (tn @ ''('' @ opt_str precision @ '')''))
             else typeName)"

section \<open>Pattern catalog\<close>

text \<open>Each pattern is the regular expression of the source, item by item.\<close>

definition dq :: char where
  "dq = CHR 0x22"

definition CR :: char where
  "CR = CHR 0x0D"

definition LF :: char where
  "LF = CHR 0x0A"

text \<open>\<open>/Identifier "([^"]+)"/\<close>\<close>

definition jobNameRegex :: re where
  \<open>jobNameRegex = cat [Lit ''Identifier "'', Grp 1 (Plus (CNot dq)), Lit ''"'']\<close>

text \<open>\<open>/FullDescription =\+=\+=\+=([\s\S]*?)=\+=\+=\+=/\<close>\<close>

definition descRegex :: re where
  "descRegex = cat [Lit ''FullDescription =+=+=+='', Grp 1 (LazyStar CAny), Lit ''=+=+=+='']"

text \<open>\<open>/\r?\n/g\<close>\<close>

definition newlineRegex :: re where
  "newlineRegex = cat [Opt (Cl (CChr CR)), Cl (CChr LF)]"

text \<open>\<open>/JobType "([^"]+)"/\<close>\<close>

definition jobTypeRegex :: re where
  \<open>jobTypeRegex = cat [Lit ''JobType "'', Grp 1 (Plus (CNot dq)), Lit ''"'']\<close>

text \<open>\<open>/BEGIN DSSUBRECORD\s+Name "([^"]+)"\s+Prompt "([^"]*)"\s+Default "([^"]*)"\s+(?:HelpTxt "([^"]*)"\s+)?ParamType "([^"]+)"/g\<close>\<close>

definition paramRegex :: re where
  \<open>paramRegex = cat
     [Lit ''BEGIN DSSUBRECORD'', Plus CSpace,
      Lit ''Name "'', Grp 1 (Plus (CNot dq)), Lit ''"'', Plus CSpace,
      Lit ''Prompt "'', Grp 2 (Star (CNot dq)), Lit ''"'', Plus CSpace,
      Lit ''Default "'', Grp 3 (Star (CNot dq)), Lit ''"'', Plus CSpace,
      Opt (cat [Lit ''HelpTxt "'', Grp 4 (Star (CNot dq)), Lit ''"'', Plus CSpace]),
      Lit ''ParamType "'', Grp 5 (Plus (CNot dq)), Lit ''"'']\<close>

text \<open>\<open>/StageList "(.*?)"/\<close>, \<open>/StageNames "(.*?)"/\<close>, \<open>/LinkNames "(.*?)"/\<close>,
  \<open>/LinkSourcePinIDs "(.*?)"/\<close>, \<open>/TargetStageIDs "(.*?)"/\<close>\<close>

definition listRegex :: "string \<Rightarrow> re" where
  \<open>listRegex key = cat [Lit (key @ '' "''), Grp 1 (LazyStar CDot), Lit ''"'']\<close>

definition stageListRegex :: re where
  "stageListRegex = listRegex ''StageList''"

definition stageNamesRegex :: re where
  "stageNamesRegex = listRegex ''StageNames''"

definition linkNamesRegex :: re where
  "linkNamesRegex = listRegex ''LinkNames''"

definition sourcePinsRegex :: re where
  "sourcePinsRegex = listRegex ''LinkSourcePinIDs''"

definition targetStagesRegex :: re where
  "targetStagesRegex = listRegex ''TargetStageIDs''"

text \<open>\<open>/BEGIN DSRECORD[\s\S]*?Name "([^"]+)"[\s\S]*?StageType "([^"]+)"[\s\S]*?END DSRECORD/g\<close>\<close>

definition stageTypeRegex :: re where
  \<open>stageTypeRegex = cat
     [Lit ''BEGIN DSRECORD'', LazyStar CAny, Lit ''Name "'', Grp 1 (Plus (CNot dq)), Lit ''"'',
      LazyStar CAny, Lit ''StageType "'', Grp 2 (Plus (CNot dq)), Lit ''"'',
      LazyStar CAny, Lit ''END DSRECORD'']\<close>

text \<open>\<open>/XMLProperties[\s\S]*?Value =\+=\+=\+=([\s\S]*?)=\+=\+=\+=/g\<close>\<close>

definition xmlPropsRegex :: re where
  "xmlPropsRegex = cat
     [Lit ''XMLProperties'', LazyStar CAny, Lit ''Value =+=+=+='', Grp 1 (LazyStar CAny),
      Lit ''=+=+=+='']"

text \<open>\<open>/<Context[^>]*>(\d+)<\/Context>/\<close>\<close>

definition contextRegex :: re where
  "contextRegex = cat
     [Lit ''<Context'', Star (CNot CHR ''>''), Lit ''>'', Grp 1 (Plus CDigit), Lit ''</Context>'']"

text \<open>\<open>/Name "([^"]+)"/\<close>\<close>

definition nameRegex :: re where
  \<open>nameRegex = cat [Lit ''Name "'', Grp 1 (Plus (CNot dq)), Lit ''"'']\<close>

text \<open>\<open>/<TAG[^>]*>\s*<!\[CDATA\[(.*?)\]\]>/\<close>, with the \<open>s\<close> flag (\<open>.\<close> matches line
  terminators too) when \<open>dotall\<close> holds.\<close>

definition cdataRegex :: "bool \<Rightarrow> string \<Rightarrow> re" where
  "cdataRegex dotall tag = cat
     [Lit (''<'' @ tag), Star (CNot CHR ''>''), Lit ''>'', Star CSpace, Lit ''<![CDATA['',
      Grp 1 (LazyStar (if dotall then CAny else CDot)), Lit '']]>'']"

text \<open>\<open>/\s+/g\<close>, \<open>/\/\*.*?\*\//g\<close>, \<open>/#[^#]+#/g\<close>, \<open>/ +/g\<close>, \<open>/\r?\n\s*/g\<close>\<close>

definition wsRegex :: re where
  "wsRegex = Plus CSpace"

definition commentRegex :: re where
  "commentRegex = cat [Lit ''/*'', LazyStar CDot, Lit ''*/'']"

definition placeholderRegex :: re where
  "placeholderRegex = cat [Lit ''#'', Plus (CNot CHR ''#''), Lit ''#'']"

definition spacesRegex :: re where
  "spacesRegex = Plus (CChr CHR '' '')"

definition lineIndentRegex :: re where
  "lineIndentRegex = cat [Opt (Cl (CChr CR)), Cl (CChr LF), Star CSpace]"

text \<open>\<open>/SELECT|INSERT|UPDATE|DELETE|CREATE|DROP|ALTER/i\<close>\<close>

definition sqlVerbRegex :: re where
  "sqlVerbRegex =
     Alt (LitI ''SELECT'') (Alt (LitI ''INSERT'') (Alt (LitI ''UPDATE'') (Alt (LitI ''DELETE'')
       (Alt (LitI ''CREATE'') (Alt (LitI ''DROP'') (LitI ''ALTER''))))))"

text \<open>\<open>/\bWHERE\b\s+(.*?)(?:\bGROUP BY\b|\bORDER BY\b|\bHAVING\b|$)/gi\<close>\<close>

definition keywordRegex :: "string \<Rightarrow> re" where
  "keywordRegex kw = cat [WordB, LitI kw, WordB]"

definition terminatorRegex :: re where
  "terminatorRegex =
     Alt (keywordRegex ''GROUP BY'') (Alt (keywordRegex ''ORDER BY'')
       (Alt (keywordRegex ''HAVING'') Eos))"

definition whereRegex :: re where
  "whereRegex = cat
     [keywordRegex ''WHERE'', Plus CSpace, Grp 1 (LazyStar CDot), terminatorRegex]"

text \<open>\<open>/StageType "PxLookup"[\s\S]*?Name "([^"]+)"[\s\S]*?(?:END DSRECORD)/g\<close>\<close>

definition lookupRegex :: re where
  \<open>lookupRegex = cat
     [Lit ''StageType "PxLookup"'', LazyStar CAny, Lit ''Name "'', Grp 1 (Plus (CNot dq)),
      Lit ''"'', LazyStar CAny, Lit ''END DSRECORD'']\<close>

text \<open>\<open>/Identifier "([^"]+P\d+)"[\s\S]*?Name "([^"]+)"[\s\S]*?Partner "([^|]*)"/g\<close>\<close>

definition inputRegex :: re where
  \<open>inputRegex = cat
     [Lit ''Identifier "'', Grp 1 (cat [Plus (CNot dq), Lit ''P'', Plus CDigit]), Lit ''"'',
      LazyStar CAny, Lit ''Name "'', Grp 2 (Plus (CNot dq)), Lit ''"'',
      LazyStar CAny, Lit ''Partner "'', Grp 3 (Star (CNot CHR ''|'')), Lit ''"'']\<close>

text \<open>\<open>/LookupFail "([^"]+)"/\<close>, \<open>/LookupType "([^"]+)"/\<close>, \<open>/ResidualHandler "([^"]+)"/\<close>\<close>

definition quotedRegex :: "string \<Rightarrow> re" where
  \<open>quotedRegex key = cat [Lit (key @ '' "''), Grp 1 (Plus (CNot dq)), Lit ''"'']\<close>

definition lookupFailRegex :: re where
  "lookupFailRegex = quotedRegex ''LookupFail''"

definition lookupTypeRegex :: re where
  "lookupTypeRegex = quotedRegex ''LookupType''"

definition residualRegex :: re where
  "residualRegex = quotedRegex ''ResidualHandler''"

text \<open>\<open>/KeyPosition "([^0])"[\s\S]*?Name "([^"]+)"/g\<close>\<close>

definition keyRegex :: re where
  \<open>keyRegex = cat
     [Lit ''KeyPosition "'', Grp 1 (Cl (CNot CHR ''0'')), Lit ''"'', LazyStar CAny,
      Lit ''Name "'', Grp 2 (Plus (CNot dq)), Lit ''"'']\<close>

text \<open>\<open>/Name "dataset"[\s\S]*?Value "([^"]+)"/g\<close> and
  \<open>/Name "datasetmode"[\s\S]*?Value "([^"]+)"/\<close>\<close>

definition datasetRegex :: re where
  \<open>datasetRegex = cat
     [Lit ''Name "dataset"'', LazyStar CAny, Lit ''Value "'', Grp 1 (Plus (CNot dq)), Lit ''"'']\<close>

definition datasetModeRegex :: re where
  \<open>datasetModeRegex = cat
     [Lit ''Name "datasetmode"'', LazyStar CAny, Lit ''Value "'', Grp 1 (Plus (CNot dq)),
      Lit ''"'']\<close>

text \<open>\<open>/Name "TrxGenCode"[\s\S]*?Value =\+=\+=\+=([\s\S]*?)=\+=\+=\+=/g\<close>\<close>

definition trxRegex :: re where
  \<open>trxRegex = cat
     [Lit ''Name "TrxGenCode"'', LazyStar CAny, Lit ''Value =+=+=+='', Grp 1 (LazyStar CAny),
      Lit ''=+=+=+='']\<close>

text \<open>\<open>/inputname\s+\d+\s+([^;]+);/\<close> and \<open>/outputname\s+\d+\s+([^;]+);/\<close>\<close>

definition ioNameRegex :: "string \<Rightarrow> re" where
  "ioNameRegex key = cat
     [Lit key, Plus CSpace, Plus CDigit, Plus CSpace, Grp 1 (Plus (CNot CHR '';'')), Lit '';'']"

text \<open>\<open>/if\s*\((.*?)\)\s*\{\s*reject\s+\d+\s*;/g\<close> and \<open>/if\s*\((.*?)\)/\<close>\<close>

definition rejectRegex :: re where
  "rejectRegex = cat
     [Lit ''if'', Star CSpace, Lit ''('', Grp 1 (LazyStar CDot), Lit '')'', Star CSpace,
      Lit ''{'', Star CSpace, Lit ''reject'', Plus CSpace, Plus CDigit, Star CSpace, Lit '';'']"

definition ifCondRegex :: re where
  "ifCondRegex = cat [Lit ''if'', Star CSpace, Lit ''('', Grp 1 (LazyStar CDot), Lit '')'']"

text \<open>\<open>/Identifier "V.*?P\d+"[\s\S]*?Name "([^"]+)"[\s\S]*?Columns "COutputColumn"([\s\S]*?)(?:MetaBag|END DSRECORD)/g\<close>\<close>

definition outputRegex :: re where
  \<open>outputRegex = cat
     [Lit ''Identifier "V'', LazyStar CDot, Lit ''P'', Plus CDigit, Lit ''"'', LazyStar CAny,
      Lit ''Name "'', Grp 1 (Plus (CNot dq)), Lit ''"'', LazyStar CAny,
      Lit ''Columns "COutputColumn"'', Grp 2 (LazyStar CAny),
      Alt (Lit ''MetaBag'') (Lit ''END DSRECORD'')]\<close>

text \<open>\<open>/Name "([^"]+)"[\s\S]*?SqlType "([^"]+)"[\s\S]*?Precision "([^"]+)"[\s\S]*?Scale "([^"]+)"[\s\S]*?Nullable "([^"]+)"/g\<close>\<close>

definition colRegex :: re where
  \<open>colRegex = cat
     [Lit ''Name "'', Grp 1 (Plus (CNot dq)), Lit ''"'', LazyStar CAny,
      Lit ''SqlType "'', Grp 2 (Plus (CNot dq)), Lit ''"'', LazyStar CAny,
      Lit ''Precision "'', Grp 3 (Plus (CNot dq)), Lit ''"'', LazyStar CAny,
      Lit ''Scale "'', Grp 4 (Plus (CNot dq)), Lit ''"'', LazyStar CAny,
      Lit ''Nullable "'', Grp 5 (Plus (CNot dq)), Lit ''"'']\<close>

text \<open>\<open>/Name "([^"]+)"[\s\S]*?Derivation "([^"]+)"/g\<close>\<close>

definition derivRegex :: re where
  \<open>derivRegex = cat
     [Lit ''Name "'', Grp 1 (Plus (CNot dq)), Lit ''"'', LazyStar CAny,
      Lit ''Derivation "'', Grp 2 (Plus (CNot dq)), Lit ''"'']\<close>

text \<open>\<open>/BEGIN DSRECORD[\s\S]*?StageType "Link"[\s\S]*?FromStageID "([^"]+)"[\s\S]*?ToStageID "([^"]+)"[\s\S]*?END DSRECORD/g\<close>\<close>

definition linkRegex :: re where
  \<open>linkRegex = cat
     [Lit ''BEGIN DSRECORD'', LazyStar CAny, Lit ''StageType "Link"'', LazyStar CAny,
      Lit ''FromStageID "'', Grp 1 (Plus (CNot dq)), Lit ''"'', LazyStar CAny,
      Lit ''ToStageID "'', Grp 2 (Plus (CNot dq)), Lit ''"'', LazyStar CAny,
      Lit ''END DSRECORD'']\<close>

section \<open>Header and parameters\<close>

definition truthy :: "string option \<Rightarrow> bool" where
  "truthy x = (case x of None \<Rightarrow> False | Some v \<Rightarrow> v \<noteq> [])"

definition job_name :: "string \<Rightarrow> string" where
  "job_name dsx_content =
     (case js_match jobNameRegex dsx_content of None \<Rightarrow> [] | Some jobNameMatch \<Rightarrow> cap jobNameMatch 1)"

text \<open>\<open>fullDesc.split('\r\n\r\n')[0] || fullDesc\<close>, then
  \<open>firstPara.replace(/\r?\n/g, ' ').trim()\<close>.\<close>

definition job_description :: "string \<Rightarrow> string" where
  "job_description dsx_content =
     (case js_match descRegex dsx_content of
        None \<Rightarrow> []
      | Some descMatch \<Rightarrow>
          (let fullDesc = js_trim (cap descMatch 1);
               firstPara = (case js_split [CR, LF, CR, LF] fullDesc of
                              [] \<Rightarrow> fullDesc
                            | h # _ \<Rightarrow> if h = [] then fullDesc else h)
           in js_trim (js_replace_all newlineRegex '' '' firstPara)))"

definition job_type_of :: "string \<Rightarrow> string jsprop" where
  "job_type_of dsx_content =
     (case js_match jobTypeRegex dsx_content of
        None \<Rightarrow> Own []
      | Some jobTypeMatch \<Rightarrow> job_type_label (cap jobTypeMatch 1))"

definition extract_parameters :: "string \<Rightarrow> DSXParameter list" where
  "extract_parameters dsx_content =
     map (\<lambda>paramMatch.
            \<lparr>p_name = cap paramMatch 1, p_prompt = cap paramMatch 2, p_default = cap paramMatch 3,
             p_help = cap paramMatch 4, p_type = param_type_label (cap paramMatch 5)\<rparr>)
         (exec_all paramRegex dsx_content)"

section \<open>Symbol resolver\<close>

text \<open>The loop \<open>for (let i = 0; i < stageIds.length; i++)\<close> over the two lists; the names
  were trimmed before.\<close>

definition build_stage_map :: "string list \<Rightarrow> string list \<Rightarrow> (string \<rightharpoonup> string)" where
  "build_stage_map stageIds stageNames =
     foldl (\<lambda>stageMap i.
              if i < length stageNames \<and> stageNames ! i \<noteq> '' ''
              then obj_set stageMap (stageIds ! i) (stageNames ! i) else stageMap)
           Map.empty [0..<length stageIds]"

definition stage_map_of :: "rmatch \<Rightarrow> rmatch \<Rightarrow> (string \<rightharpoonup> string)" where
  "stage_map_of stageListMatch stageNamesMatch =
     build_stage_map (js_split ''|'' (cap stageListMatch 1))
                     (map js_trim (js_split ''|'' (cap stageNamesMatch 1)))"

definition stage_type_map :: "string \<Rightarrow> (string \<rightharpoonup> string)" where
  "stage_type_map dsx_content =
     foldl (\<lambda>stageTypeMap stageMatch.
              (let stageName = cap stageMatch 1; stageType = cap stageMatch 2
               in if stageName \<noteq> [] \<and> stageName \<noteq> '' '' \<and> stageType \<noteq> []
                  then obj_set stageTypeMap stageName stageType else stageTypeMap))
           Map.empty (exec_all stageTypeRegex dsx_content)"

section \<open>Source, target and SQL-script extractor\<close>

text \<open>\<open>extractWhereClauses\<close>\<close>

definition extractWhereClauses :: "string \<Rightarrow> string list" where
  "extractWhereClauses sql =
     concat (map (\<lambda>m. if cap m 1 \<noteq> [] \<and> js_trim (cap m 1) \<noteq> [] then [js_trim (cap m 1)] else [])
                 (exec_all whereRegex sql))"

text \<open>\<open>dsx_content.substring(0, index).split("BEGIN DSRECORD").pop() || ""\<close>, then
  \<open>recordContent.match(/Name "([^"]+)"/)\<close>.\<close>

definition preceding_record_name :: "string \<Rightarrow> nat \<Rightarrow> rmatch option" where
  "preceding_record_name dsx_content index =
     (let recordContent =
            (case js_pop (js_split ''BEGIN DSRECORD'' (js_substring dsx_content 0 index)) of
               None \<Rightarrow> [] | Some r \<Rightarrow> r)
      in js_match nameRegex recordContent)"

definition cdata_of :: "bool \<Rightarrow> string \<Rightarrow> string \<Rightarrow> string option" where
  "cdata_of dotall tag xmlContent = map_option (\<lambda>m. cap m 1) (js_match (cdataRegex dotall tag) xmlContent)"

definition redact :: "string \<Rightarrow> string" where
  "redact s = js_replace_all placeholderRegex ''[PARAM]'' s"

text \<open>\<open>selectMatch[1].trim()\<close>, then \<open>.replace(/\s+/g, ' ')\<close>, then
  \<open>.replace(/\/\*.*?\*\//g, '')\<close>.\<close>

definition normalize_sql :: "string \<Rightarrow> string" where
  "normalize_sql raw = js_replace_all commentRegex [] (js_replace_all wsRegex '' '' (js_trim raw))"

text \<open>The object built under \<open>context === 1\<close>.\<close>

definition build_source :: "(string \<rightharpoonup> string) \<Rightarrow> string \<Rightarrow> string \<Rightarrow> DSXSource" where
  "build_source stageTypeMap stageName xmlContent =
     (let sql = map_option normalize_sql (cdata_of True ''SelectStatement'' xmlContent);
          whereClauses = (case sql of None \<Rightarrow> [] | Some s \<Rightarrow> extractWhereClauses s)
      in \<lparr>src_name = stageName,
          src_type = or_default (obj_get stageTypeMap stageName) ''source'',
          src_columns = [],
          src_sql = sql,
          src_where_clauses = (if whereClauses \<noteq> [] then Some whereClauses else None),
          src_table = (if truthy sql then None else cdata_of False ''TableName'' xmlContent),
          src_connection = map_option redact (cdata_of False ''Server'' xmlContent),
          src_database = cdata_of False ''Database'' xmlContent\<rparr>)"

text \<open>\<open>if (source.sql || source.table || source.columns.length > 0)\<close>\<close>

definition keep_source :: "DSXSource \<Rightarrow> bool" where
  "keep_source source = (truthy (src_sql source) \<or> truthy (src_table source) \<or> src_columns source \<noteq> [])"

definition write_mode :: "string \<Rightarrow> string option" where
  "write_mode raw =
     (let modes = [''Append'', ''Create'', ''Truncate'', ''Replace'']
      in case parseInt raw of
           None \<Rightarrow> None
         | Some modeIndex \<Rightarrow>
             if 0 \<le> modeIndex \<and> modeIndex < int (length modes) then Some (modes ! nat modeIndex)
             else None)"

text \<open>The object built under \<open>context === 2\<close>.\<close>

definition build_target :: "(string \<rightharpoonup> string) \<Rightarrow> string \<Rightarrow> string \<Rightarrow> DSXTarget" where
  "build_target stageTypeMap stageName xmlContent =
     \<lparr>tgt_name = Some stageName,
      tgt_type = or_default (obj_get stageTypeMap stageName) ''target'',
      tgt_columns = Some [],
      tgt_table = cdata_of False ''TableName'' xmlContent,
      tgt_dataset = None,
      tgt_mode = (case cdata_of False ''WriteMode'' xmlContent of
                    None \<Rightarrow> None | Some raw \<Rightarrow> write_mode raw),
      tgt_connection = map_option redact (cdata_of False ''Server'' xmlContent),
      tgt_database = cdata_of False ''Database'' xmlContent\<rparr>"

text \<open>\<open>if (target.table || target.dataset || target.columns.length > 0)\<close>\<close>

definition keep_target :: "DSXTarget \<Rightarrow> bool" where
  "keep_target target =
     (truthy (tgt_table target) \<or> truthy (tgt_dataset target)
      \<or> (case tgt_columns target of None \<Rightarrow> False | Some cs \<Rightarrow> cs \<noteq> []))"

definition sql_script_for :: "string \<Rightarrow> string \<Rightarrow> string \<Rightarrow> DSXSqlScript list" where
  "sql_script_for stageName xmlContent sqlType =
     (case cdata_of True sqlType xmlContent of
        None \<Rightarrow> []
      | Some raw \<Rightarrow>
          (let sql = js_trim raw
           in if js_test sqlVerbRegex sql
              then [\<lparr>stage = stageName, script_type = sqlType,
                      script_sql = js_replace_all lineIndentRegex [LF]
                                     (js_replace_all spacesRegex '' '' sql)\<rparr>]
              else []))"

text \<open>One turn of the loop over the property blocks: what it pushes to \<open>result.sources\<close>,
  \<open>result.targets\<close> and \<open>result.sql_scripts\<close>.\<close>

definition xml_block ::
  "(string \<rightharpoonup> string) \<Rightarrow> string \<Rightarrow> rmatch \<Rightarrow> DSXSource list \<times> DSXTarget list \<times> DSXSqlScript list" where
  "xml_block stageTypeMap dsx_content xmlMatch =
     (let xmlContent = cap xmlMatch 1;
          contextMatch = js_match contextRegex xmlContent
      in case preceding_record_name dsx_content (m_index xmlMatch) of
           None \<Rightarrow> ([], [], [])
         | Some stageNameMatch \<Rightarrow>
             (let stageName = cap stageNameMatch 1
              in case contextMatch of
                   None \<Rightarrow> ([], [], [])
                 | Some cm \<Rightarrow>
                     (let context = parseInt (cap cm 1);
                          source = build_source stageTypeMap stageName xmlContent;
                          target = build_target stageTypeMap stageName xmlContent
                      in (if context = Some 1 \<and> keep_source source then [source] else [],
                          if context \<noteq> Some 1 \<and> context = Some 2 \<and> keep_target target
                          then [target] else [],
                          concat (map (sql_script_for stageName xmlContent)
                                      [''BeforeSQL'', ''AfterSQL'', ''SelectStatement''])))))"

section \<open>Lookup extractor\<close>

definition lookup_of :: "rmatch \<Rightarrow> DSXLookup list" where
  "lookup_of lookupMatch =
     (let lookupSection = m_text lookupMatch;
          lookupName = cap lookupMatch 1;
          (ins, fm) = foldl (\<lambda>(ins, fm) inputMatch.
                               case js_match lookupFailRegex lookupSection of
                                 None \<Rightarrow> (ins, fm)
                               | Some conditionMatch \<Rightarrow> (ins @ [cap inputMatch 2], cap conditionMatch 1))
                            ([], []) (exec_all inputRegex lookupSection);
          keys = map (\<lambda>keyMatch. cap keyMatch 2) (exec_all keyRegex lookupSection);
          lookupConfig =
            \<lparr>lk_name = lookupName, lk_type = ''Lookup'', inputs = ins, lk_output = [],
             key_columns = keys, fail_mode = fm,
             lookup_type = map_option (\<lambda>m. or_default (obj_get lookupTypeMap (cap m 1)) (cap m 1))
                                      (js_match lookupTypeRegex lookupSection),
             residual_handling = map_option (\<lambda>m. cap m 1) (js_match residualRegex lookupSection)\<rparr>
      in if ins \<noteq> [] \<or> keys \<noteq> [] then [lookupConfig] else [])"

definition extract_lookups :: "string \<Rightarrow> DSXLookup list" where
  "extract_lookups dsx_content = concat (map lookup_of (exec_all lookupRegex dsx_content))"

section \<open>Dataset targets\<close>

definition dataset_target :: "string \<Rightarrow> rmatch \<Rightarrow> DSXTarget" where
  "dataset_target dsx_content datasetMatch =
     (let datasetPath = cap datasetMatch 1;
          datasetName = (case js_pop (js_split ''/'' datasetPath) of
                           None \<Rightarrow> datasetPath
                         | Some l \<Rightarrow> if l = [] then datasetPath else l);
          surroundingStart = m_index datasetMatch - 500;
          surrounding = js_substring dsx_content surroundingStart (m_index datasetMatch);
          stageNameMatch = js_match nameRegex surrounding;
          contextRange = js_substring dsx_content (m_index datasetMatch - 200)
                           (min (length dsx_content) (m_index datasetMatch + 200));
          datasetModeMatch = js_match datasetModeRegex contextRange
      in \<lparr>tgt_name = map_option (\<lambda>m. cap m 1) stageNameMatch,
          tgt_type = Own ''dataset'',
          tgt_columns = None,
          tgt_table = None,
          tgt_dataset = Some datasetName,
          tgt_mode = map_option (\<lambda>m. cap m 1) datasetModeMatch,
          tgt_connection = None,
          tgt_database = None\<rparr>)"

definition extract_dataset_targets :: "string \<Rightarrow> DSXTarget list" where
  "extract_dataset_targets dsx_content =
     map (dataset_target dsx_content) (exec_all datasetRegex dsx_content)"

section \<open>Transform extractor\<close>

definition is_rule_line :: "string \<Rightarrow> bool" where
  "is_rule_line line =
     (js_includes line ''=''
      \<and> \<not> js_startsWith (js_trim line) ''//''
      \<and> \<not> js_startsWith (js_trim line) ''int''
      \<and> \<not> js_includes line ''RowRejected''
      \<and> \<not> js_includes line ''NullSet''
      \<and> \<not> js_includes line ''inputname''
      \<and> \<not> js_includes line ''outputname''
      \<and> \<not> js_includes line ''initialize''
      \<and> \<not> js_includes line ''mainloop''
      \<and> \<not> js_includes line ''finish''
      \<and> \<not> js_includes line ''writerecord'')"

definition extract_rules :: "string list \<Rightarrow> string list" where
  "extract_rules lines =
     concat (map (\<lambda>line.
                    if is_rule_line line
                    then (let cleanLine = js_trim line
                          in if cleanLine \<noteq> [] then [js_replace_all wsRegex '' '' cleanLine] else [])
                    else [])
                 lines)"

text \<open>\<open>transformCode.match(/if\s*\((.*?)\)\s*\{\s*reject\s+\d+\s*;/g)\<close> is \<open>null\<close> when
  nothing matches, and the field is then left unset.\<close>

definition reject_conditions_of :: "string \<Rightarrow> string list option" where
  "reject_conditions_of transformCode =
     (let rejectMatches = map m_text (exec_all rejectRegex transformCode)
      in if rejectMatches = [] then None
         else Some (filter (\<lambda>s. s \<noteq> [])
                      (map (\<lambda>match. case js_match ifCondRegex match of
                                        None \<Rightarrow> [] | Some c \<Rightarrow> js_trim (cap c 1))
                           rejectMatches)))"

definition transform_of :: "string \<Rightarrow> rmatch \<Rightarrow> DSXTransform list" where
  "transform_of dsx_content trxMatch =
     (let transformCode = js_trim (cap trxMatch 1);
          stageName = (case preceding_record_name dsx_content (m_index trxMatch) of
                         None \<Rightarrow> ''unknown'' | Some stageNameMatch \<Rightarrow> cap stageNameMatch 1);
          rs = extract_rules (js_split [LF] transformCode);
          transform =
            \<lparr>trx_name = stageName, rules = rs,
             trx_input = map_option (\<lambda>m. cap m 1) (js_match (ioNameRegex ''inputname'') transformCode),
             trx_output = map_option (\<lambda>m. cap m 1) (js_match (ioNameRegex ''outputname'') transformCode),
             reject_conditions = reject_conditions_of transformCode\<rparr>
      in if rs \<noteq> [] then [transform] else [])"

definition extract_transforms :: "string \<Rightarrow> DSXTransform list" where
  "extract_transforms dsx_content =
     concat (map (transform_of dsx_content) (exec_all trxRegex dsx_content))"

section \<open>Column extractor\<close>

text \<open>\<open>columns.find(c => c.name === colName)\<close> followed by the assignment to
  \<open>column.derivation\<close>: the first column of that name is updated.\<close>

fun set_derivation :: "DSXColumn list \<Rightarrow> string \<Rightarrow> string \<Rightarrow> DSXColumn list" where
  "set_derivation [] colName d = []"
| "set_derivation (c # cs) colName d =
     (if col_name c = colName then c\<lparr>derivation := Some d\<rparr> # cs
      else c # set_derivation cs colName d)"

definition columns_of :: "string \<Rightarrow> DSXColumn list" where
  "columns_of columnsContent =
     (let columns =
            concat (map (\<lambda>colMatch.
                           (let colName = cap colMatch 1
                            in if js_startsWith colName ''APT_'' \<or> js_startsWith colName ''DSLink''
                               then []
                               else [\<lparr>col_name = colName,
                                      col_type = mapSqlType (cap colMatch 2) (Some (cap colMatch 3))
                                                   (Some (cap colMatch 4)),
                                      col_nullable = (cap colMatch 5 = ''1''),
                                      derivation = None\<rparr>]))
                        (exec_all colRegex columnsContent))
      in foldl (\<lambda>columns derivMatch.
                  set_derivation columns (cap derivMatch 1)
                    (js_replace_all wsRegex '' '' (js_trim (cap derivMatch 2))))
               columns (exec_all derivRegex columnsContent))"

definition column_info_map :: "string \<Rightarrow> DSXColumn protobj" where
  "column_info_map dsx_content =
     foldl (\<lambda>columnInfoMap outputMatch.
              (let linkName = cap outputMatch 1;
                   columns = columns_of (cap outputMatch 2)
               in if columns \<noteq> [] then protobj_set columnInfoMap linkName columns
                  else columnInfoMap))
           empty_protobj (exec_all outputRegex dsx_content)"

section \<open>Flow assembler\<close>

text \<open>The body of the loop \<open>for (let i = 0; i < linkNames.length; i++)\<close> at index \<open>i\<close>:
  the connection it pushes, if any.\<close>

definition source_id_at :: "string list \<Rightarrow> nat \<Rightarrow> string option" where
  "source_id_at sourcePins i =
     (if i < length sourcePins \<and> sourcePins ! i \<noteq> []
      then (case js_split ''P'' (sourcePins ! i) of
              [] \<Rightarrow> None
            | p0 # _ \<Rightarrow> if p0 \<noteq> [] then Some p0 else None)
      else None)"

definition target_id_at :: "string list \<Rightarrow> nat \<Rightarrow> string option" where
  "target_id_at targetStages i =
     (if i < length targetStages \<and> targetStages ! i \<noteq> [] then Some (targetStages ! i) else None)"

definition flow_entry_at ::
  "(string \<rightharpoonup> string) \<Rightarrow> DSXColumn protobj \<Rightarrow> string list \<Rightarrow> string list \<Rightarrow>
   string list \<Rightarrow> nat \<Rightarrow> DSXFlow list" where
  "flow_entry_at stageMap columnInfoMap linkNames sourcePins targetStages i =
     (let linkName = linkNames ! i
      in case (source_id_at sourcePins i, target_id_at targetStages i) of
           (Some sourceId, Some targetId) \<Rightarrow>
             (let fromStage = or_default (obj_get stageMap sourceId) ''Unknown'';
                  toStage = or_default (obj_get stageMap targetId) ''Unknown''
              in if fromStage \<noteq> Own ''Unknown'' \<and> toStage \<noteq> Own ''Unknown''
                    \<and> fromStage \<noteq> Own '' '' \<and> toStage \<noteq> Own '' ''
                 then [\<lparr>link = linkName, flow_from = fromStage, flow_to = toStage,
                         flow_columns = (if protobj_get columnInfoMap linkName \<noteq> None
                                         then protobj_get columnInfoMap linkName else None)\<rparr>]
                 else [])
         | _ \<Rightarrow> [])"

definition primary_flow ::
  "(string \<rightharpoonup> string) \<Rightarrow> DSXColumn protobj \<Rightarrow> string list \<Rightarrow> string list \<Rightarrow>
   string list \<Rightarrow> DSXFlow list" where
  "primary_flow stageMap columnInfoMap linkNames sourcePins targetStages =
     concat (map (flow_entry_at stageMap columnInfoMap linkNames sourcePins targetStages)
                 [0..<length linkNames])"

text \<open>The text a template literal gives for a value found in the stage map. For an
  inherited member it is the host's rendering of that function or object.\<close>

definition template_text :: "(string \<Rightarrow> string) \<Rightarrow> string jsprop \<Rightarrow> string" where
  "template_text member_text v = (case v of Own s \<Rightarrow> s | Inherited k \<Rightarrow> member_text k)"

definition link_record_flow :: "(string \<Rightarrow> string) \<Rightarrow> (string \<rightharpoonup> string) \<Rightarrow> rmatch \<Rightarrow> DSXFlow" where
  "link_record_flow member_text stageMap linkMatch =
     (let fromStageId = cap linkMatch 1;
          toStageId = cap linkMatch 2;
          fromStageName = or_default (obj_get stageMap fromStageId) fromStageId;
          toStageName = or_default (obj_get stageMap toStageId) toStageId
      in \<lparr>link = template_text member_text fromStageName @ ''_to_''
                   @ template_text member_text toStageName,
          flow_from = fromStageName, flow_to = toStageName, flow_columns = None\<rparr>)"

definition fallback_flow :: "(string \<Rightarrow> string) \<Rightarrow> (string \<rightharpoonup> string) \<Rightarrow> string \<Rightarrow> DSXFlow list" where
  "fallback_flow member_text stageMap dsx_content =
     map (link_record_flow member_text stageMap) (exec_all linkRegex dsx_content)"

definition extract_flow ::
  "(string \<Rightarrow> string) \<Rightarrow> (string \<rightharpoonup> string) \<Rightarrow> DSXColumn protobj \<Rightarrow> string \<Rightarrow> DSXFlow list" where
  "extract_flow member_text stageMap columnInfoMap dsx_content =
     (case js_match linkNamesRegex dsx_content of
        Some linkNamesMatch \<Rightarrow>
          (let linkNames = filter (\<lambda>s. js_trim s \<noteq> []) (js_split ''|'' (cap linkNamesMatch 1))
           in case (js_match sourcePinsRegex dsx_content, js_match targetStagesRegex dsx_content) of
                (Some sourcePinsMatch, Some targetStagesMatch) \<Rightarrow>
                  primary_flow stageMap columnInfoMap linkNames
                    (js_split ''|'' (cap sourcePinsMatch 1)) (js_split ''|'' (cap targetStagesMatch 1))
              | _ \<Rightarrow> [])
      | None \<Rightarrow> fallback_flow member_text stageMap dsx_content)"

section \<open>Validator\<close>

record Validation =
  valid :: bool
  issues :: "string list"

text \<open>A \<open>Set\<close> built from an array keeps the first occurrence of each element, in order.\<close>

definition set_of_array :: "'a list \<Rightarrow> 'a list" where
  "set_of_array xs = foldl (\<lambda>acc x. if x \<in> set acc then acc else acc @ [x]) [] xs"

text \<open>\<open>stages.has(stage)\<close> for a set of \<open>from\<close> or \<open>to\<close> values: a stage name is found if
  the same string is in the set; \<open>undefined\<close> is never in it.\<close>

definition has_stage :: "string jsprop list \<Rightarrow> string option \<Rightarrow> bool" where
  "has_stage stages st = (case st of None \<Rightarrow> False | Some s \<Rightarrow> Own s \<in> set stages)"

definition truthy_prop :: "string jsprop \<Rightarrow> bool" where
  "truthy_prop v = (case v of Own s \<Rightarrow> s \<noteq> [] | Inherited k \<Rightarrow> True)"

definition all_stages :: "DSXJobInfo \<Rightarrow> string option list" where
  "all_stages data =
     set_of_array
       (map (\<lambda>s. Some (src_name s)) (sources data)
        @ map tgt_name (targets data)
        @ map (\<lambda>t. Some (trx_name t)) (transforms data)
        @ map (\<lambda>l. Some (lk_name l)) (lookups data)
        @ map sp_name (specialized_stages data))"

definition disconnected_message :: "string option \<Rightarrow> string" where
  \<open>disconnected_message st = ''Stage "'' @ opt_str st @ ''" appears disconnected from the flow''\<close>

definition validateExtractedData :: "DSXJobInfo \<Rightarrow> Validation" where
  "validateExtractedData data =
     (let issues =
            (if name data = [] then [''Missing job name''] else [])
            @ (if \<not> truthy_prop (job_type data) then [''Missing job type''] else [])
            @ (if sources data = [] \<and> targets data = []
               then [''No sources or targets found - possible parsing issue''] else [])
            @ (if flow data \<noteq> []
               then (let fromStages = map flow_from (flow data);
                         toStages = map flow_to (flow data)
                     in concat (map (\<lambda>st.
                                       if \<not> has_stage fromStages st \<and> \<not> has_stage toStages st
                                       then [disconnected_message st] else [])
                                    (all_stages data)))
               else [])
      in \<lparr>valid = (issues = []), issues = issues\<rparr>)"

section \<open>Token estimate\<close>

text \<open>
  The values handed to \<open>JSON.stringify\<close>, as the objects the extractor built: the keys in
  the order they were assigned, an unset field absent. A property whose value is a
  function is left out by \<open>JSON.stringify\<close>; the inherited \<open>__proto__\<close> member is the empty
  object \<open>Object.prototype\<close>. The serialiser itself is a parameter.
\<close>

datatype json = JStr string | JNum nat | JBool bool | JArr "json list" | JObj "(string \<times> json) list"

definition obj :: "(string \<times> json option) list \<Rightarrow> json" where
  "obj kvs = JObj (concat (map (\<lambda>(k, v). case v of None \<Rightarrow> [] | Some j \<Rightarrow> [(k, j)]) kvs))"

definition json_strs :: "string list \<Rightarrow> json" where
  "json_strs xs = JArr (map JStr xs)"

definition json_prop :: "('a \<Rightarrow> json) \<Rightarrow> 'a jsprop \<Rightarrow> json option" where
  "json_prop f v =
     (case v of Own x \<Rightarrow> Some (f x)
      | Inherited k \<Rightarrow> if k = ''__proto__'' then Some (JObj []) else None)"

definition json_of_column :: "DSXColumn \<Rightarrow> json" where
  "json_of_column c =
     obj [(''name'', Some (JStr (col_name c))), (''type'', json_prop JStr (col_type c)),
          (''nullable'', Some (JBool (col_nullable c))),
          (''derivation'', map_option JStr (derivation c))]"

definition json_of_columns :: "DSXColumn list \<Rightarrow> json" where
  "json_of_columns cs = JArr (map json_of_column cs)"

definition json_of_parameter :: "DSXParameter \<Rightarrow> json" where
  "json_of_parameter p =
     obj [(''name'', Some (JStr (p_name p))), (''prompt'', Some (JStr (p_prompt p))),
          (''default'', Some (JStr (p_default p))), (''help'', Some (JStr (p_help p))),
          (''type'', json_prop JStr (p_type p))]"

definition json_of_source :: "DSXSource \<Rightarrow> json" where
  "json_of_source s =
     obj [(''name'', Some (JStr (src_name s))), (''type'', json_prop JStr (src_type s)),
          (''columns'', Some (json_of_columns (src_columns s))),
          (''sql'', map_option JStr (src_sql s)),
          (''where_clauses'', map_option json_strs (src_where_clauses s)),
          (''table'', map_option JStr (src_table s)),
          (''connection'', map_option JStr (src_connection s)),
          (''database'', map_option JStr (src_database s))]"

text \<open>A target from a property block has \<open>name, type, columns\<close> first; a dataset target is
  built as \<open>type, dataset\<close>, then \<open>name\<close> and \<open>mode\<close>, and has no \<open>columns\<close>.\<close>

definition json_of_target :: "DSXTarget \<Rightarrow> json" where
  "json_of_target t =
     (case tgt_columns t of
        Some cs \<Rightarrow>
          obj [(''name'', map_option JStr (tgt_name t)), (''type'', json_prop JStr (tgt_type t)),
               (''columns'', Some (json_of_columns cs)),
               (''table'', map_option JStr (tgt_table t)),
               (''dataset'', map_option JStr (tgt_dataset t)),
               (''mode'', map_option JStr (tgt_mode t)),
               (''connection'', map_option JStr (tgt_connection t)),
               (''database'', map_option JStr (tgt_database t))]
      | None \<Rightarrow>
          obj [(''type'', json_prop JStr (tgt_type t)),
               (''dataset'', map_option JStr (tgt_dataset t)),
               (''name'', map_option JStr (tgt_name t)),
               (''mode'', map_option JStr (tgt_mode t)),
               (''table'', map_option JStr (tgt_table t)),
               (''connection'', map_option JStr (tgt_connection t)),
               (''database'', map_option JStr (tgt_database t))])"

definition json_of_transform :: "DSXTransform \<Rightarrow> json" where
  "json_of_transform x =
     obj [(''name'', Some (JStr (trx_name x))), (''rules'', Some (json_strs (rules x))),
          (''input'', map_option JStr (trx_input x)), (''output'', map_option JStr (trx_output x)),
          (''reject_conditions'', map_option json_strs (reject_conditions x))]"

definition json_of_sql_script :: "DSXSqlScript \<Rightarrow> json" where
  "json_of_sql_script s =
     obj [(''stage'', Some (JStr (stage s))), (''type'', Some (JStr (script_type s))),
          (''sql'', Some (JStr (script_sql s)))]"

definition json_of_lookup :: "DSXLookup \<Rightarrow> json" where
  "json_of_lookup l =
     obj [(''name'', Some (JStr (lk_name l))), (''type'', Some (JStr (lk_type l))),
          (''inputs'', Some (json_strs (inputs l))), (''output'', Some (JStr (lk_output l))),
          (''key_columns'', Some (json_strs (key_columns l))),
          (''fail_mode'', Some (JStr (fail_mode l))),
          (''lookup_type'', (case lookup_type l of None \<Rightarrow> None | Some v \<Rightarrow> json_prop JStr v)),
          (''residual_handling'', map_option JStr (residual_handling l))]"

definition json_of_filter :: "DSXFilter \<Rightarrow> json" where
  "json_of_filter f =
     obj [(''name'', Some (JStr (flt_name f))), (''condition'', Some (JStr (condition f))),
          (''input'', map_option JStr (flt_input f)), (''output'', map_option JStr (flt_output f))]"

definition json_of_specialized :: "SpecializedStage \<Rightarrow> json" where
  "json_of_specialized s = obj [(''name'', map_option JStr (sp_name s))]"

definition json_of_flow :: "DSXFlow \<Rightarrow> json" where
  "json_of_flow f =
     obj [(''link'', Some (JStr (link f))), (''from'', json_prop JStr (flow_from f)),
          (''to'', json_prop JStr (flow_to f)),
          (''columns'', (case flow_columns f of
                           None \<Rightarrow> None
                         | Some (POwn cs) \<Rightarrow> Some (json_of_columns cs)
                         | Some (PLength n) \<Rightarrow> Some (JNum n)
                         | Some (PElem c) \<Rightarrow> Some (json_of_column c)
                         | Some (PMember k) \<Rightarrow> json_prop JStr (Inherited k)))]"

definition json_of_metadata :: "Metadata \<Rightarrow> json" where
  "json_of_metadata m =
     obj [(''extractedAt'', Some (JStr (extractedAt m))), (''version'', Some (JStr (version m))),
          (''tokenCount'', map_option JNum (tokenCount m))]"

text \<open>The sections of a \<open>DSXJobInfo\<close> that are arrays, in the order of \<open>Object.keys(data)\<close>.\<close>

definition array_sections :: "DSXJobInfo \<Rightarrow> (string \<times> json) list" where
  "array_sections data =
     [(''parameters'', JArr (map json_of_parameter (parameters data))),
      (''sources'', JArr (map json_of_source (sources data))),
      (''targets'', JArr (map json_of_target (targets data))),
      (''transforms'', JArr (map json_of_transform (transforms data))),
      (''sql_scripts'', JArr (map json_of_sql_script (sql_scripts data))),
      (''lookups'', JArr (map json_of_lookup (lookups data))),
      (''filters'', JArr (map json_of_filter (filters data))),
      (''specialized_stages'', JArr (map json_of_specialized (specialized_stages data))),
      (''flow'', JArr (map json_of_flow (flow data)))]"

definition json_of_job :: "DSXJobInfo \<Rightarrow> json" where
  "json_of_job data =
     obj ([(''name'', Some (JStr (name data))), (''description'', Some (JStr (description data))),
           (''type'', json_prop JStr (job_type data))]
          @ map (\<lambda>(k, v). (k, Some v)) (array_sections data)
          @ [(''metadata'', Some (json_of_metadata (metadata data)))])"

definition basic_info :: "DSXJobInfo \<Rightarrow> json" where
  "basic_info data =
     obj [(''name'', Some (JStr (name data))), (''description'', Some (JStr (description data))),
          (''type'', json_prop JStr (job_type data)),
          (''metadata'', Some (json_of_metadata (metadata data)))]"

record TokenUsage =
  total :: nat
  breakdown :: "(string \<times> nat) list"

text \<open>\<open>Math.ceil(n / 4)\<close> for a length \<open>n\<close>.\<close>

definition ceil_quarter :: "nat \<Rightarrow> nat" where
  "ceil_quarter n = (n + 3) div 4"

definition estimateTokenUsage :: "(json \<Rightarrow> string) \<Rightarrow> DSXJobInfo \<Rightarrow> TokenUsage" where
  "estimateTokenUsage JSON_stringify data =
     (let jsonStr = JSON_stringify (json_of_job data);
          totalTokens = ceil_quarter (length jsonStr)
      in \<lparr>total = totalTokens,
          breakdown = map (\<lambda>(section, sectionData).
                             (section, ceil_quarter (length (JSON_stringify sectionData))))
                          (array_sections data)
                      @ [(''basic'', ceil_quarter (length (JSON_stringify (basic_info data))))]\<rparr>)"

section \<open>The extraction engine\<close>

text \<open>
  What the engine takes from its host: the clock (\<open>new Date().toISOString()\<close>), the text
  the host gives for a member of \<open>Object.prototype\<close> in a template literal, and
  \<open>JSON.stringify\<close>.
\<close>

record Env =
  now :: string
  member_text :: "string \<Rightarrow> string"
  stringify :: "json \<Rightarrow> string"

text \<open>The body of \<open>if (stageListMatch && stageNamesMatch)\<close>: every push to the sections of
  \<open>result\<close>, in the order of the source.\<close>

definition stage_sections :: "Env \<Rightarrow> string \<Rightarrow> rmatch \<Rightarrow> rmatch \<Rightarrow> DSXJobInfo \<Rightarrow> DSXJobInfo" where
  "stage_sections env dsx_content stageListMatch stageNamesMatch result =
     (let stageMap = stage_map_of stageListMatch stageNamesMatch;
          stageTypeMap = stage_type_map dsx_content;
          blocks = map (xml_block stageTypeMap dsx_content) (exec_all xmlPropsRegex dsx_content);
          columnInfoMap = column_info_map dsx_content
      in result
           \<lparr>sources := sources result @ concat (map fst blocks),
            targets := targets result @ concat (map (\<lambda>b. fst (snd b)) blocks)
                         @ extract_dataset_targets dsx_content,
            sql_scripts := sql_scripts result @ concat (map (\<lambda>b. snd (snd b)) blocks),
            lookups := lookups result @ extract_lookups dsx_content,
            transforms := transforms result @ extract_transforms dsx_content,
            flow := flow result @ extract_flow (member_text env) stageMap columnInfoMap dsx_content\<rparr>)"

definition initial_result :: "Env \<Rightarrow> DSXJobInfo" where
  "initial_result env =
     \<lparr>name = [], description = [], job_type = Own [], parameters = [], sources = [], targets = [],
      transforms = [], sql_scripts = [], lookups = [], filters = [], specialized_stages = [],
      flow = [], metadata = \<lparr>extractedAt = now env, version = ''1.2.0'', tokenCount = None\<rparr>\<rparr>"

text \<open>\<open>extractDSXJobInfo\<close>. The closing call of \<open>validateExtractedData\<close> only feeds
  \<open>console.warn\<close> and leaves \<open>result\<close> as it is.\<close>

definition extractDSXJobInfo :: "Env \<Rightarrow> string \<Rightarrow> bool \<Rightarrow> DSXJobInfo" where
  "extractDSXJobInfo env dsx_content includeTokenCount =
     (let result0 = (initial_result env)
            \<lparr>name := job_name dsx_content,
             description := job_description dsx_content,
             job_type := job_type_of dsx_content,
             parameters := extract_parameters dsx_content\<rparr>;
          result1 =
            (case (js_match stageListRegex dsx_content, js_match stageNamesRegex dsx_content) of
               (Some stageListMatch, Some stageNamesMatch) \<Rightarrow>
                 stage_sections env dsx_content stageListMatch stageNamesMatch result0
             | _ \<Rightarrow> result0)
      in if includeTokenCount
         then result1\<lparr>metadata := (metadata result1)
                \<lparr>tokenCount := Some (total (estimateTokenUsage (stringify env) result1))\<rparr>\<rparr>
         else result1)"

text \<open>Names for what the theorems below speak of: whether both stage lists were found,
  the stage map built from them, and what the loop over the property blocks pushed.\<close>

definition stage_lists_present :: "string \<Rightarrow> bool" where
  "stage_lists_present dsx_content =
     (js_match stageListRegex dsx_content \<noteq> None \<and> js_match stageNamesRegex dsx_content \<noteq> None)"

definition doc_stage_map :: "string \<Rightarrow> (string \<rightharpoonup> string)" where
  "doc_stage_map dsx_content =
     (case (js_match stageListRegex dsx_content, js_match stageNamesRegex dsx_content) of
        (Some stageListMatch, Some stageNamesMatch) \<Rightarrow> stage_map_of stageListMatch stageNamesMatch
      | _ \<Rightarrow> Map.empty)"

definition xml_blocks :: "string \<Rightarrow> (DSXSource list \<times> DSXTarget list \<times> DSXSqlScript list) list" where
  "xml_blocks dsx_content =
     map (xml_block (stage_type_map dsx_content) dsx_content) (exec_all xmlPropsRegex dsx_content)"

section \<open>A host\<close>

text \<open>
  A host to run the engine on concrete documents: a fixed clock reading, the rendering of
  built-in functions that current engines use, and a serialiser that writes JSON text the
  way \<open>JSON.stringify\<close> does (no white space; \<open>"\<close>, \<open>\\<close> and control characters
  escaped). The theorems below hold for every host.
\<close>

definition json_escape :: "char \<Rightarrow> string" where
  "json_escape c =
     (if c = CHR 0x22 then [CHR 0x5C, CHR 0x22]
      else if c = CHR 0x5C then [CHR 0x5C, CHR 0x5C]
      else if c = CHR 0x08 then [CHR 0x5C, CHR ''b'']
      else if c = CHR 0x09 then [CHR 0x5C, CHR ''t'']
      else if c = CHR 0x0A then [CHR 0x5C, CHR ''n'']
      else if c = CHR 0x0C then [CHR 0x5C, CHR ''f'']
      else if c = CHR 0x0D then [CHR 0x5C, CHR ''r'']
      else if (of_char c :: nat) < 32
      then [CHR 0x5C, CHR ''u'', CHR ''0'', CHR ''0'',
            ''0123456789abcdef'' ! ((of_char c :: nat) div 16),
            ''0123456789abcdef'' ! ((of_char c :: nat) mod 16)]
      else [c])"

definition json_quote :: "string \<Rightarrow> string" where
  "json_quote s = [CHR 0x22] @ concat (map json_escape s) @ [CHR 0x22]"

fun json_text :: "json \<Rightarrow> string"
  and json_items :: "json list \<Rightarrow> string"
  and json_members :: "(string \<times> json) list \<Rightarrow> string" where
  "json_text (JStr s) = json_quote s"
| "json_text (JNum n) = dec n"
| "json_text (JBool b) = (if b then ''true'' else ''false'')"
| "json_text (JArr xs) = ''['' @ json_items xs @ '']''"
| "json_text (JObj kvs) = ''{'' @ json_members kvs @ ''}''"
| "json_items [] = []"
| "json_items [x] = json_text x"
| "json_items (x # y # ys) = json_text x @ '','' @ json_items (y # ys)"
| "json_members [] = []"
| "json_members [(k, v)] = json_quote k @ '':'' @ json_text v"
| "json_members ((k, v) # kv # kvs) = json_quote k @ '':'' @ json_text v @ '','' @ json_members (kv # kvs)"

definition sample_host :: Env where
  "sample_host =
     \<lparr>now = ''2026-01-01T00:00:00.000Z'',
      member_text = (\<lambda>k. if k = ''__proto__'' then ''[object Object]''
                         else ''function '' @ (if k = ''constructor'' then ''Object'' else k)
                              @ ''() { [native code] }''),
      stringify = json_text\<rparr>"

section \<open>Sample documents\<close>

text \<open>Documents on which the engine is run below.\<close>

definition no_stage_list_doc :: string where
  \<open>no_stage_list_doc = ''StageNames "A" BEGIN DSRECORD Name "T1" Name "TrxGenCode" Value =+=+=+=x = y=+=+=+= END DSRECORD''\<close>



definition all_entities_doc :: string where
  \<open>all_entities_doc = ''StageList "V0" StageNames "A" BEGIN DSRECORD Name "S1" XMLProperties Value =+=+=+=<Context>1</Context><TableName><![CDATA[T]]>=+=+=+= StageType "PxLookup" Name "L1" KeyPosition "1" Name "k" END DSRECORD Name "dataset" Value "/d/o.ds" Name "TrxGenCode" Value =+=+=+=a = b=+=+=+=''\<close>

definition nameless_dataset_doc :: string where
  \<open>nameless_dataset_doc = ''StageList "V0" StageNames "A" Name "dataset" Value "/data/out.ds"''\<close>

definition no_flow_doc :: string where
  \<open>no_flow_doc = ''Identifier "J" JobType "1" StageList "V0" StageNames "A" BEGIN DSRECORD Name "S1" XMLProperties Value =+=+=+=<Context>1</Context><TableName><![CDATA[T]]>=+=+=+= END DSRECORD''\<close>

definition disconnected_doc :: string where
  \<open>disconnected_doc = ''Identifier "J" JobType "1" StageList "V0|V1" StageNames "A|B" LinkNames "L" LinkSourcePinIDs "V0P1" TargetStageIDs "V1" BEGIN DSRECORD Name "S1" XMLProperties Value =+=+=+=<Context>1</Context><TableName><![CDATA[T]]>=+=+=+= END DSRECORD''\<close>

definition lf_description_doc :: string where
  "lf_description_doc = ''FullDescription =+=+=+=para1'' @ [LF, LF] @ ''para2=+=+=+=''"

definition crlf_description_doc :: string where
  "crlf_description_doc = ''FullDescription =+=+=+=para1'' @ [CR, LF, CR, LF] @ ''para2=+=+=+=''"



definition headerless_doc :: string where
  \<open>headerless_doc = ''StageList "V0" StageNames "A" XMLProperties Value =+=+=+=<Context>1</Context><TableName><![CDATA[T]]>=+=+=+= Name "TrxGenCode" Value =+=+=+=a = b=+=+=+=''\<close>



text \<open>Every pattern the source runs in an \<open>exec\<close> loop or a global \<open>replace\<close>.\<close>

definition loop_patterns :: "re list" where
  "loop_patterns =
     [paramRegex, stageTypeRegex, xmlPropsRegex, whereRegex, lookupRegex, inputRegex, keyRegex,
      datasetRegex, trxRegex, rejectRegex, outputRegex, colRegex, derivRegex, linkRegex,
      newlineRegex, wsRegex, commentRegex, placeholderRegex, spacesRegex, lineIndentRegex]"

definition plain_doc :: string where
  "plain_doc = ''hello, world''"

definition scenario_block :: string where
  "scenario_block =
     ''<Context>1</Context><SelectStatement><![CDATA[SELECT * FROM CUSTOMERS WHERE STATUS = ''
     @ [CHR 0x27] @ ''A'' @ [CHR 0x27] @ '']]></SelectStatement>''"

definition nested_where_doc :: string where
  \<open>nested_where_doc = ''StageList "V0" StageNames "A" BEGIN DSRECORD Name "S1" XMLProperties Value =+=+=+=<Context>1</Context><SelectStatement><![CDATA[SELECT a FROM t WHERE x IN (SELECT y FROM u WHERE z = 1)]]>=+=+=+=''\<close>

definition where_paren_block :: string where
  "where_paren_block = ''<SelectStatement><![CDATA[SELECT a FROM t WHERE(x = 1)]]>''"

section \<open>WHERE clauses in the words of the specification\<close>

text \<open>
  A second description of the predicates of a statement, written from the words of the
  specification and not from the pattern of the source: scan the statement from left to
  right for the keyword \<open>WHERE\<close> (in any letter case, not adjoining a word character)
  followed by white space; the predicate is the text behind that white space up to the next
  \<open>GROUP BY\<close>, \<open>ORDER BY\<close> or \<open>HAVING\<close> (same conventions) or the end of the statement,
  trimmed, and is kept if it is not empty; the scan resumes behind that keyword.
\<close>

text \<open>The keyword \<open>kw\<close> stands at the head of \<open>s\<close>, the character before being \<open>p\<close>.\<close>

definition keyword_at :: "string \<Rightarrow> char option \<Rightarrow> string \<Rightarrow> bool" where
  "keyword_at kw p s =
     (\<not> word_at p \<and> prefix_i kw s \<and> \<not> word_at (next_char (drop (length kw) s)))"

text \<open>A \<open>WHERE\<close> followed by white space stands at the head of \<open>s\<close>.\<close>

definition where_here :: "char option \<Rightarrow> string \<Rightarrow> bool" where
  "where_here p s =
     (\<not> word_at p \<and> prefix_i ''WHERE'' s
      \<and> (case drop 5 s of [] \<Rightarrow> False | c # _ \<Rightarrow> is_space c))"

text \<open>A predicate ends at the head of \<open>s\<close>: what remains behind the keyword that ends it,
  with the last character of that keyword; at the end of the statement nothing remains.\<close>

definition terminator_end :: "char option \<Rightarrow> string \<Rightarrow> (char option \<times> string) option" where
  "terminator_end p s =
     (if keyword_at ''GROUP BY'' p s then Some (Some (s ! 7), drop 8 s)
      else if keyword_at ''ORDER BY'' p s then Some (Some (s ! 7), drop 8 s)
      else if keyword_at ''HAVING'' p s then Some (Some (s ! 5), drop 6 s)
      else if s = [] then Some (p, [])
      else None)"

text \<open>The text up to the next place where a predicate ends, and what remains behind
  it.\<close>

fun predicate_text :: "char option \<Rightarrow> string \<Rightarrow> string" where
  "predicate_text p [] = []"
| "predicate_text p (x # xs) =
     (if terminator_end p (x # xs) \<noteq> None then [] else x # predicate_text (Some x) xs)"

fun after_predicate :: "char option \<Rightarrow> string \<Rightarrow> char option \<times> string" where
  "after_predicate p [] = (p, [])"
| "after_predicate p (x # xs) =
     (case terminator_end p (x # xs) of Some e \<Rightarrow> e | None \<Rightarrow> after_predicate (Some x) xs)"

text \<open>The text behind a \<open>WHERE\<close> that stands at the head of \<open>s\<close> and behind the white
  space that follows it, with the last character of that white space.\<close>

definition where_body :: "string \<Rightarrow> char option \<times> string" where
  "where_body s = (Some (last (takeWhile is_space (drop 5 s))), dropWhile is_space (drop 5 s))"

text \<open>What remains is a part of the text; this makes the scan end.\<close>

lemma terminator_end_suffix: "terminator_end p s = Some (q, r) \<Longrightarrow> \<exists>w. s = w @ r"
  by (auto simp: terminator_end_def split: if_splits) (metis append_take_drop_id)+

lemma after_predicate_suffix: "\<exists>w. t = w @ snd (after_predicate p t)"
proof (induction t arbitrary: p)
  case Nil
  then show ?case by simp
next
  case (Cons x xs)
  show ?case
  proof (cases "terminator_end p (x # xs)")
    case None
    from Cons.IH[of "Some x"] obtain w where "xs = w @ snd (after_predicate (Some x) xs)" by blast
    then have "x # xs = (x # w) @ snd (after_predicate (Some x) xs)" by simp
    with None show ?thesis by (metis after_predicate.simps(2) option.simps(4))
  next
    case (Some e)
    then obtain q r where e: "e = (q, r)" by (cases e)
    with Some terminator_end_suffix[of p "x # xs" q r] show ?thesis by simp
  qed
qed

lemma where_body_length: "where_body (x # xs) = (pb, t) \<Longrightarrow> length t \<le> length xs"
proof -
  assume "where_body (x # xs) = (pb, t)"
  then have "t = dropWhile is_space (drop 4 xs)" by (simp add: where_body_def eval_nat_numeral)
  then have "length t \<le> length (drop 4 xs)" by (simp only: length_dropWhile_le)
  then show ?thesis by simp
qed

lemma after_predicate_length: "length (snd (after_predicate p t)) \<le> length t"
  using after_predicate_suffix[of t p] by (metis length_append le_add2)

function where_clauses_from :: "char option \<Rightarrow> string \<Rightarrow> string list" where
  "where_clauses_from p [] = []"
| "where_clauses_from p (x # xs) =
     (if where_here p (x # xs)
      then (case where_body (x # xs) of
              (pb, t) \<Rightarrow>
                (if js_trim (predicate_text pb t) \<noteq> [] then [js_trim (predicate_text pb t)] else [])
                @ where_clauses_from (fst (after_predicate pb t)) (snd (after_predicate pb t)))
      else where_clauses_from (Some x) xs)"
  by pat_completeness auto
termination
proof (relation "measure (\<lambda>(p, s). length s)")
  fix p x xs pb t
  assume "(pb, t) = where_body (x # xs)"
  then have "length t \<le> length xs" using where_body_length[of x xs pb t] by simp
  with after_predicate_length[of pb t]
  show "((fst (after_predicate pb t), snd (after_predicate pb t)), p, x # xs)
        \<in> measure (\<lambda>(p, s). length s)" by (simp add: case_prod_beta)
qed auto

definition where_clauses_spec :: "string \<Rightarrow> string list" where
  "where_clauses_spec sql = where_clauses_from None sql"

text \<open>The first place of a text at which a test succeeds.\<close>

fun skip_to :: "(char option \<Rightarrow> string \<Rightarrow> bool) \<Rightarrow> char option \<Rightarrow> string \<Rightarrow> char option \<times> string" where
  "skip_to ok p [] = (p, [])"
| "skip_to ok p (x # xs) = (if ok p (x # xs) then (p, x # xs) else skip_to ok (Some x) xs)"

definition inherited_code_doc :: string where
  \<open>inherited_code_doc = ''JobType "constructor"''\<close>

section \<open>Facts about matches\<close>

text \<open>Every match a loop finds is within what its pattern can match.\<close>

lemma exec_loop_den:
  "m \<in> set (exec_loop r p i s) \<Longrightarrow> den r (m_text m) Map.empty (m_caps m)"
proof (induction r p i s rule: exec_loop.induct)
  case (1 r p i s)
  show ?case
  proof (cases "nullable r")
    case True
    with "1.prems" show ?thesis by (simp add: exec_loop.simps)
  next
    case False
    show ?thesis
    proof (cases "search r p i s")
      case None
      with False "1.prems" show ?thesis by (simp add: exec_loop.simps)
    next
      case (Some m0)
      with False "1.prems" have
        "m = m0 \<or> m \<in> set (exec_loop r (m_prev m0) (m_index m0 + length (m_text m0)) (m_rest m0))"
        by (simp add: exec_loop.simps[of r p i s])
      then show ?thesis
      proof
        assume "m = m0"
        with search_sound[OF Some] show ?thesis by blast
      next
        assume "m \<in> set (exec_loop r (m_prev m0) (m_index m0 + length (m_text m0)) (m_rest m0))"
        with "1.IH"[OF False Some] show ?thesis by simp
      qed
    qed
  qed
qed

lemma exec_all_den: "m \<in> set (exec_all r s) \<Longrightarrow> den r (m_text m) Map.empty (m_caps m)"
  unfolding exec_all_def by (rule exec_loop_den)

lemma js_match_den: "js_match r s = Some m \<Longrightarrow> den r (m_text m) Map.empty (m_caps m)"
  unfolding js_match_def by (drule search_sound) blast

lemma name_cap_nonempty: "js_match nameRegex s = Some m \<Longrightarrow> cap m 1 \<noteq> []"
  by (drule js_match_den) (auto simp: nameRegex_def cap_def)

lemma lookup_cap_nonempty: "m \<in> set (exec_all lookupRegex s) \<Longrightarrow> cap m 1 \<noteq> []"
  by (drule exec_all_den) (auto simp: lookupRegex_def cap_def)

lemma js_includes_iff: "js_includes s sub \<longleftrightarrow> (\<exists>pre post. s = pre @ sub @ post)"
proof (induction s)
  case Nil
  then show ?case by auto
next
  case (Cons a s)
  show ?case
  proof
    assume "js_includes (a # s) sub"
    then consider "prefix sub (a # s)" | "js_includes s sub" by auto
    then show "\<exists>pre post. a # s = pre @ sub @ post"
    proof cases
      case 1
      then obtain post where "a # s = sub @ post" by (auto simp: prefix_def)
      then have "a # s = [] @ sub @ post" by simp
      then show ?thesis by blast
    next
      case 2
      with Cons.IH obtain pre post where "s = pre @ sub @ post" by blast
      then have "a # s = (a # pre) @ sub @ post" by simp
      then show ?thesis by blast
    qed
  next
    assume "\<exists>pre post. a # s = pre @ sub @ post"
    then obtain pre post where e: "a # s = pre @ sub @ post" by blast
    show "js_includes (a # s) sub"
    proof (cases pre)
      case Nil
      with e have "prefix sub (a # s)" by (metis append_Nil prefixI)
      then show ?thesis by simp
    next
      case (Cons b pre')
      with e have "s = pre' @ sub @ post" by simp
      with Cons.IH show ?thesis by auto
    qed
  qed
qed

text \<open>A pattern that begins with a literal only matches where the literal occurs.\<close>

lemma search_literal:
  assumes "search (Seq (Lit l) r) p i s = Some m"
  shows "js_includes s l"
proof -
  from search_sound[OF assms] obtain pre where
    s: "s = pre @ m_text m @ m_rest m" and d: "den (Seq (Lit l) r) (m_text m) Map.empty (m_caps m)"
    by blast
  from d obtain w2 where "m_text m = l @ w2" by auto
  with s have "s = pre @ l @ (w2 @ m_rest m)" by simp
  then show ?thesis unfolding js_includes_iff by blast
qed

lemma js_match_literal: "\<not> js_includes s l \<Longrightarrow> js_match (Seq (Lit l) r) s = None"
  unfolding js_match_def using search_literal by (cases "search (Seq (Lit l) r) None 0 s") auto

lemma exec_all_literal:
  assumes "\<not> js_includes s l"
  shows "exec_all (Seq (Lit l) r) s = []"
proof -
  have "search (Seq (Lit l) r) None 0 s = None"
    using search_literal[of l r None 0 s] assms by (cases "search (Seq (Lit l) r) None 0 s") auto
  then show ?thesis by (simp add: exec_all_def exec_loop.simps)
qed





lemma name_match_text:
  assumes "js_match nameRegex w = Some nm"
  shows \<open>\<exists>pre post. w = pre @ ''Name "'' @ cap nm 1 @ ''"'' @ post\<close>
proof -
  from assms[unfolded js_match_def, THEN search_sound] obtain pre where
    w: "w = pre @ m_text nm @ m_rest nm" and d: "den nameRegex (m_text nm) Map.empty (m_caps nm)"
    by blast
  from d obtain g where \<open>m_text nm = ''Name "'' @ g @ ''"''\<close> "m_caps nm = [1 \<mapsto> g]"
    by (auto simp: nameRegex_def)
  then have \<open>m_text nm = ''Name "'' @ cap nm 1 @ ''"''\<close> by (simp add: cap_def)
  with w have \<open>w = pre @ ''Name "'' @ cap nm 1 @ ''"'' @ m_rest nm\<close> by simp
  then show ?thesis by blast
qed

lemma name_match_none: \<open>\<not> js_includes w ''Name "'' \<Longrightarrow> js_match nameRegex w = None\<close>
  unfolding nameRegex_def cat.simps by (rule js_match_literal)

text \<open>The sections of the result, read off the definition.\<close>

lemma result_sources:
  "sources (extractDSXJobInfo env d flag) =
     (if stage_lists_present d then concat (map fst (xml_blocks d)) else [])"
  by (auto simp: extractDSXJobInfo_def stage_sections_def initial_result_def Let_def
      stage_lists_present_def xml_blocks_def split: option.splits)

lemma result_targets:
  "targets (extractDSXJobInfo env d flag) =
     (if stage_lists_present d
      then concat (map (\<lambda>b. fst (snd b)) (xml_blocks d)) @ extract_dataset_targets d else [])"
  by (auto simp: extractDSXJobInfo_def stage_sections_def initial_result_def Let_def
      stage_lists_present_def xml_blocks_def split: option.splits)

lemma result_sql_scripts:
  "sql_scripts (extractDSXJobInfo env d flag) =
     (if stage_lists_present d then concat (map (\<lambda>b. snd (snd b)) (xml_blocks d)) else [])"
  by (auto simp: extractDSXJobInfo_def stage_sections_def initial_result_def Let_def
      stage_lists_present_def xml_blocks_def split: option.splits)

lemma result_transforms:
  "transforms (extractDSXJobInfo env d flag) =
     (if stage_lists_present d then extract_transforms d else [])"
  by (auto simp: extractDSXJobInfo_def stage_sections_def initial_result_def Let_def
      stage_lists_present_def split: option.splits)

lemma result_lookups:
  "lookups (extractDSXJobInfo env d flag) =
     (if stage_lists_present d then extract_lookups d else [])"
  by (auto simp: extractDSXJobInfo_def stage_sections_def initial_result_def Let_def
      stage_lists_present_def split: option.splits)

lemma result_flow:
  "flow (extractDSXJobInfo env d flag) =
     (if stage_lists_present d
      then extract_flow (member_text env) (doc_stage_map d) (column_info_map d) d else [])"
  by (auto simp: extractDSXJobInfo_def stage_sections_def initial_result_def Let_def
      stage_lists_present_def doc_stage_map_def split: option.splits)

lemma result_header:
  "name (extractDSXJobInfo env d flag) = job_name d"
  "description (extractDSXJobInfo env d flag) = job_description d"
  "job_type (extractDSXJobInfo env d flag) = job_type_of d"
  "parameters (extractDSXJobInfo env d flag) = extract_parameters d"
  "filters (extractDSXJobInfo env d flag) = []"
  "specialized_stages (extractDSXJobInfo env d flag) = []"
  "extractedAt (metadata (extractDSXJobInfo env d flag)) = now env"
  "version (metadata (extractDSXJobInfo env d flag)) = ''1.2.0''"
  by (auto simp: extractDSXJobInfo_def stage_sections_def initial_result_def Let_def
      split: option.splits)

section \<open>C1: documents without the stage lists\<close>

text \<open>
  C1 (as amended). When the stage-identifier list or the stage-name list is absent, the
  engine skips every stage section: sources, targets, transforms, SQL scripts, lookups and
  flow stay empty. The name, description, type and parameters are extracted as for any
  other document.
\<close>

theorem stage_lists_absent:
  assumes "js_match stageListRegex d = None \<or> js_match stageNamesRegex d = None"
  shows "sources (extractDSXJobInfo env d flag) = []
       \<and> targets (extractDSXJobInfo env d flag) = []
       \<and> transforms (extractDSXJobInfo env d flag) = []
       \<and> sql_scripts (extractDSXJobInfo env d flag) = []
       \<and> lookups (extractDSXJobInfo env d flag) = []
       \<and> flow (extractDSXJobInfo env d flag) = []
       \<and> name (extractDSXJobInfo env d flag) = job_name d
       \<and> description (extractDSXJobInfo env d flag) = job_description d
       \<and> job_type (extractDSXJobInfo env d flag) = job_type_of d
       \<and> parameters (extractDSXJobInfo env d flag) = extract_parameters d"
proof -
  from assms have "\<not> stage_lists_present d" by (auto simp: stage_lists_present_def)
  then show ?thesis
    by (simp add: result_sources result_targets result_transforms result_sql_scripts
        result_lookups result_flow result_header)
qed

text \<open>A document with a stage-name list and a transform block, and no stage-identifier
  list.\<close>

lemma no_stage_list_doc_match: "js_match stageListRegex no_stage_list_doc = None"
  by code_simp

theorem stage_lists_absent_witness:
  "js_match stageListRegex no_stage_list_doc = None
   \<and> sources (extractDSXJobInfo sample_host no_stage_list_doc False) = []
   \<and> transforms (extractDSXJobInfo sample_host no_stage_list_doc False) = []
   \<and> flow (extractDSXJobInfo sample_host no_stage_list_doc False) = []"
proof -
  have h: "js_match stageListRegex no_stage_list_doc = None
           \<or> js_match stageNamesRegex no_stage_list_doc = None"
    using no_stage_list_doc_match by simp
  from stage_lists_absent[OF h, of sample_host False] no_stage_list_doc_match
  show ?thesis by simp
qed

lemma no_stage_list_doc_transforms:
  "extract_transforms no_stage_list_doc =
     [\<lparr>trx_name = ''T1'', rules = [''x = y''], trx_input = None, trx_output = None,
       reject_conditions = None\<rparr>]"
  by code_simp

lemma no_stage_list_doc_result:
  "transforms (extractDSXJobInfo sample_host no_stage_list_doc False) = []"
  by (simp add: result_transforms stage_lists_present_def no_stage_list_doc_match)

text \<open>
  C1 as stated fails: on this document the transform extractor, run on its own, finds a
  transform, and the engine returns none, because the stage-identifier list is absent.
\<close>

theorem transform_extractor_skipped:
  "js_match stageListRegex no_stage_list_doc = None
   \<and> extract_transforms no_stage_list_doc =
       [\<lparr>trx_name = ''T1'', rules = [''x = y''], trx_input = None, trx_output = None,
         reject_conditions = None\<rparr>]
   \<and> transforms (extractDSXJobInfo sample_host no_stage_list_doc False) = []"
  using no_stage_list_doc_match no_stage_list_doc_transforms no_stage_list_doc_result by simp

section \<open>C2: documents with no recognizable construct\<close>

text \<open>No looped pattern matches the empty string, so every loop of the engine advances on
  each match and ends.\<close>

lemma loop_patterns_consume: "list_all (\<lambda>r. \<not> nullable r) loop_patterns"
  by (simp add: loop_patterns_def paramRegex_def stageTypeRegex_def xmlPropsRegex_def
      whereRegex_def keywordRegex_def lookupRegex_def inputRegex_def keyRegex_def datasetRegex_def trxRegex_def
      rejectRegex_def outputRegex_def colRegex_def derivRegex_def linkRegex_def newlineRegex_def
      wsRegex_def commentRegex_def placeholderRegex_def spacesRegex_def lineIndentRegex_def)

text \<open>
  C2. \<open>extractDSXJobInfo\<close> is a total function of the document: the source raises nowhere,
  and each of its loops ends (\<open>loop_patterns_consume\<close>). For a document that holds none of
  the keys \<open>Identifier "\<close>, \<open>FullDescription =+=+=+=\<close>, \<open>JobType "\<close>, \<open>BEGIN DSSUBRECORD\<close>, and
  lacks \<open>StageList "\<close> or \<open>StageNames "\<close>, the result has an empty name, description and type,
  every collection empty, and \<open>metadata.extractedAt\<close> set to the clock reading.
\<close>

theorem no_constructs_empty_result:
  assumes \<open>\<not> js_includes d ''Identifier "''\<close>
    and "\<not> js_includes d ''FullDescription =+=+=+=''"
    and \<open>\<not> js_includes d ''JobType "''\<close>
    and "\<not> js_includes d ''BEGIN DSSUBRECORD''"
    and \<open>\<not> js_includes d ''StageList "'' \<or> \<not> js_includes d ''StageNames "''\<close>
  shows "extractDSXJobInfo env d False =
           \<lparr>name = [], description = [], job_type = Own [], parameters = [], sources = [],
            targets = [], transforms = [], sql_scripts = [], lookups = [], filters = [],
            specialized_stages = [], flow = [],
            metadata = \<lparr>extractedAt = now env, version = ''1.2.0'', tokenCount = None\<rparr>\<rparr>
       \<and> extractDSXJobInfo env d True =
           (extractDSXJobInfo env d False)
             \<lparr>metadata := \<lparr>extractedAt = now env, version = ''1.2.0'',
                tokenCount = Some (ceil_quarter (length (stringify env
                               (json_of_job (extractDSXJobInfo env d False)))))\<rparr>\<rparr>"
proof -
  from assms(1) have n: "job_name d = []"
    by (simp add: job_name_def jobNameRegex_def js_match_literal)
  from assms(2) have ds: "job_description d = []"
    by (simp add: job_description_def descRegex_def js_match_literal)
  from assms(3) have ty: "job_type_of d = Own []"
    by (simp add: job_type_of_def jobTypeRegex_def js_match_literal)
  from assms(4) have pa: "extract_parameters d = []"
    by (simp add: extract_parameters_def paramRegex_def exec_all_literal)
  from assms(5) have "js_match stageListRegex d = None \<or> js_match stageNamesRegex d = None"
    by (auto simp: stageListRegex_def stageNamesRegex_def listRegex_def js_match_literal)
  then have r1: "extractDSXJobInfo env d False =
      (initial_result env)\<lparr>name := job_name d, description := job_description d,
         job_type := job_type_of d, parameters := extract_parameters d\<rparr>"
    by (auto simp: extractDSXJobInfo_def Let_def split: option.splits)
  with n ds ty pa have e: "extractDSXJobInfo env d False =
           \<lparr>name = [], description = [], job_type = Own [], parameters = [], sources = [],
            targets = [], transforms = [], sql_scripts = [], lookups = [], filters = [],
            specialized_stages = [], flow = [],
            metadata = \<lparr>extractedAt = now env, version = ''1.2.0'', tokenCount = None\<rparr>\<rparr>"
    by (simp add: initial_result_def)
  have "extractDSXJobInfo env d True =
       (extractDSXJobInfo env d False)
         \<lparr>metadata := (metadata (extractDSXJobInfo env d False))
            \<lparr>tokenCount := Some (total (estimateTokenUsage (stringify env)
                                           (extractDSXJobInfo env d False)))\<rparr>\<rparr>"
    by (auto simp: extractDSXJobInfo_def stage_sections_def initial_result_def Let_def
        split: option.splits)
  with e show ?thesis by (simp add: estimateTokenUsage_def Let_def)
qed

lemma plain_doc_keys:
  \<open>\<not> js_includes plain_doc ''Identifier "''\<close>
  "\<not> js_includes plain_doc ''FullDescription =+=+=+=''"
  \<open>\<not> js_includes plain_doc ''JobType "''\<close>
  "\<not> js_includes plain_doc ''BEGIN DSSUBRECORD''"
  \<open>\<not> js_includes plain_doc ''StageList "''\<close>
  by code_simp+

theorem no_constructs_empty_result_witness:
  \<open>\<not> js_includes plain_doc ''Identifier "''
   \<and> \<not> js_includes plain_doc ''FullDescription =+=+=+=''
   \<and> \<not> js_includes plain_doc ''JobType "''
   \<and> \<not> js_includes plain_doc ''BEGIN DSSUBRECORD''
   \<and> \<not> js_includes plain_doc ''StageList "''
   \<and> extractDSXJobInfo sample_host plain_doc False =
       \<lparr>name = [], description = [], job_type = Own [], parameters = [], sources = [],
        targets = [], transforms = [], sql_scripts = [], lookups = [], filters = [],
        specialized_stages = [], flow = [],
        metadata = \<lparr>extractedAt = ''2026-01-01T00:00:00.000Z'', version = ''1.2.0'',
                    tokenCount = None\<rparr>\<rparr>\<close>
proof -
  have h: \<open>\<not> js_includes plain_doc ''StageList "'' \<or> \<not> js_includes plain_doc ''StageNames "''\<close>
    using plain_doc_keys(5) by simp
  from no_constructs_empty_result[OF plain_doc_keys(1-4) h, of sample_host, THEN conjunct1]
    plain_doc_keys
  show ?thesis by (simp add: sample_host_def)
qed

section \<open>C3: the endpoints of a flow connection\<close>




























section \<open>C4: entity names\<close>

lemma preceding_record_name_nonempty:
  "preceding_record_name d i = Some m \<Longrightarrow> cap m 1 \<noteq> []"
  by (auto simp: preceding_record_name_def Let_def dest: name_cap_nonempty)

lemma xml_block_unresolved:
  "preceding_record_name d (m_index xm) = None \<Longrightarrow> xml_block stm d xm = ([], [], [])"
  by (simp add: xml_block_def Let_def)

lemma xml_block_resolved:
  assumes "preceding_record_name d (m_index xm) = Some nm"
  shows "(\<forall>s \<in> set (fst (xml_block stm d xm)). src_name s = cap nm 1)
       \<and> (\<forall>t \<in> set (fst (snd (xml_block stm d xm))). tgt_name t = Some (cap nm 1))"
proof -
  have s: "src_name (build_source stm (cap nm 1) x) = cap nm 1" for x
    by (simp add: build_source_def Let_def)
  have t: "tgt_name (build_target stm (cap nm 1) x) = Some (cap nm 1)" for x
    by (simp add: build_target_def)
  from assms s t show ?thesis
    by (auto simp: xml_block_def Let_def split: option.splits if_splits)
qed

lemma block_source_name:
  assumes "s \<in> set (fst (xml_block stm d xm))"
  shows "\<exists>nm. preceding_record_name d (m_index xm) = Some nm \<and> src_name s = cap nm 1
              \<and> src_name s \<noteq> []"
proof (cases "preceding_record_name d (m_index xm)")
  case None
  from xml_block_unresolved[OF None, of stm] assms show ?thesis by simp
next
  case (Some nm)
  from xml_block_resolved[OF Some, of stm] assms have "src_name s = cap nm 1" by blast
  with Some preceding_record_name_nonempty[OF Some] show ?thesis by simp
qed

lemma block_target_name:
  assumes "t \<in> set (fst (snd (xml_block stm d xm)))"
  shows "\<exists>nm. preceding_record_name d (m_index xm) = Some nm \<and> tgt_name t = Some (cap nm 1)
              \<and> cap nm 1 \<noteq> []"
proof (cases "preceding_record_name d (m_index xm)")
  case None
  from xml_block_unresolved[OF None, of stm] assms show ?thesis by simp
next
  case (Some nm)
  from xml_block_resolved[OF Some, of stm] assms have "tgt_name t = Some (cap nm 1)" by blast
  with Some preceding_record_name_nonempty[OF Some] show ?thesis by simp
qed

lemma dataset_target_name:
  "tgt_name (dataset_target d m) =
     map_option (\<lambda>nm. cap nm 1)
       (js_match nameRegex (js_substring d (m_index m - 500) (m_index m)))
   \<and> tgt_name (dataset_target d m) \<noteq> Some [] \<and> tgt_dataset (dataset_target d m) \<noteq> None
   \<and> tgt_columns (dataset_target d m) = None"
  by (auto simp: dataset_target_def Let_def dest: name_cap_nonempty)

lemma transform_of_name:
  assumes "t \<in> set (transform_of d m)"
  shows "trx_name t = (case preceding_record_name d (m_index m) of
                         None \<Rightarrow> ''unknown'' | Some nm \<Rightarrow> cap nm 1)
       \<and> trx_name t \<noteq> []"
  using assms
  by (auto simp: transform_of_def Let_def split: if_splits option.splits
      dest: preceding_record_name_nonempty)

lemma transform_of_stored:
  assumes "extract_rules (js_split [LF] (js_trim (cap m 1))) \<noteq> []"
  shows "\<exists>t \<in> set (transform_of d m).
           trx_name t = (case preceding_record_name d (m_index m) of
                           None \<Rightarrow> ''unknown'' | Some nm \<Rightarrow> cap nm 1)
         \<and> rules t = extract_rules (js_split [LF] (js_trim (cap m 1)))"
  using assms by (simp add: transform_of_def Let_def)

lemma lookup_of_name:
  assumes "m \<in> set (exec_all lookupRegex d)" and "l \<in> set (lookup_of m)"
  shows "lk_name l \<noteq> []"
  using assms(2) lookup_cap_nonempty[OF assms(1)]
  by (auto simp: lookup_of_def Let_def split: if_splits prod.splits)


lemma dataset_target_named:
  assumes "tgt_name (dataset_target d m) = Some n"
  shows \<open>n \<noteq> [] \<and> (\<exists>pre post. js_substring d (m_index m - 500) (m_index m)
                                   = pre @ ''Name "'' @ n @ ''"'' @ post)\<close>
proof -
  from assms obtain nm where
    nm: "js_match nameRegex (js_substring d (m_index m - 500) (m_index m)) = Some nm"
    and n: "n = cap nm 1"
    by (auto simp: dataset_target_def Let_def)
  from name_match_text[OF nm] name_cap_nonempty[OF nm] n show ?thesis by simp
qed

lemma dataset_target_nameless:
  assumes \<open>\<not> js_includes (js_substring d (m_index m - 500) (m_index m)) ''Name "''\<close>
  shows "tgt_name (dataset_target d m) = None"
  using name_match_none[OF assms] by (simp add: dataset_target_def Let_def)

lemma sources_named:
  assumes "s \<in> set (sources (extractDSXJobInfo env d flag))"
  shows "src_name s \<noteq> []
       \<and> (\<exists>xmlMatch stageNameMatch.
             xmlMatch \<in> set (exec_all xmlPropsRegex d)
           \<and> preceding_record_name d (m_index xmlMatch) = Some stageNameMatch
           \<and> src_name s = cap stageNameMatch 1)"
proof -
  from assms obtain xm where xm: "xm \<in> set (exec_all xmlPropsRegex d)"
    and s: "s \<in> set (fst (xml_block (stage_type_map d) d xm))"
    by (auto simp: result_sources xml_blocks_def split: if_splits)
  from block_source_name[OF s] xm show ?thesis by blast
qed

lemma targets_named:
  assumes "t \<in> set (targets (extractDSXJobInfo env d flag))"
  shows "tgt_name t \<noteq> Some []
       \<and> (tgt_name t = None \<longrightarrow> tgt_dataset t \<noteq> None \<and> tgt_columns t = None)
       \<and> ((\<exists>xmlMatch stageNameMatch.
              xmlMatch \<in> set (exec_all xmlPropsRegex d)
            \<and> preceding_record_name d (m_index xmlMatch) = Some stageNameMatch
            \<and> tgt_name t = Some (cap stageNameMatch 1))
          \<or> (\<exists>datasetMatch. datasetMatch \<in> set (exec_all datasetRegex d)
                \<and> t = dataset_target d datasetMatch))"
proof -
  from assms consider xm where "xm \<in> set (exec_all xmlPropsRegex d)"
      "t \<in> set (fst (snd (xml_block (stage_type_map d) d xm)))"
    | m where "m \<in> set (exec_all datasetRegex d)" "t = dataset_target d m"
    by (auto simp: result_targets xml_blocks_def extract_dataset_targets_def split: if_splits)
  then show ?thesis
  proof cases
    case 1
    from block_target_name[OF 1(2)] obtain nm where
      "preceding_record_name d (m_index xm) = Some nm" "tgt_name t = Some (cap nm 1)"
      "cap nm 1 \<noteq> []" by blast
    with 1(1) show ?thesis by auto
  next
    case 2
    with dataset_target_name[of d m] show ?thesis by auto
  qed
qed

lemma transforms_named:
  assumes "t \<in> set (transforms (extractDSXJobInfo env d flag))"
  shows "trx_name t \<noteq> []
       \<and> (\<exists>trxMatch. trxMatch \<in> set (exec_all trxRegex d)
            \<and> trx_name t = (case preceding_record_name d (m_index trxMatch) of
                               None \<Rightarrow> ''unknown''
                             | Some stageNameMatch \<Rightarrow> cap stageNameMatch 1))"
proof -
  from assms obtain m where m: "m \<in> set (exec_all trxRegex d)" "t \<in> set (transform_of d m)"
    by (auto simp: result_transforms extract_transforms_def split: if_splits)
  from transform_of_name[OF m(2)] m(1) show ?thesis by blast
qed

lemma transforms_stored:
  assumes "stage_lists_present d" and "trxMatch \<in> set (exec_all trxRegex d)"
    and "extract_rules (js_split [LF] (js_trim (cap trxMatch 1))) \<noteq> []"
  shows "\<exists>t \<in> set (transforms (extractDSXJobInfo env d flag)).
           trx_name t = (case preceding_record_name d (m_index trxMatch) of
                           None \<Rightarrow> ''unknown'' | Some stageNameMatch \<Rightarrow> cap stageNameMatch 1)
         \<and> rules t = extract_rules (js_split [LF] (js_trim (cap trxMatch 1)))"
proof -
  from transform_of_stored[OF assms(3), of d] obtain t where
    t: "t \<in> set (transform_of d trxMatch)"
    "trx_name t = (case preceding_record_name d (m_index trxMatch) of
                           None \<Rightarrow> ''unknown'' | Some stageNameMatch \<Rightarrow> cap stageNameMatch 1)"
    "rules t = extract_rules (js_split [LF] (js_trim (cap trxMatch 1)))" by blast
  from t(1) assms(1,2) have "t \<in> set (transforms (extractDSXJobInfo env d flag))"
    by (auto simp: result_transforms extract_transforms_def)
  with t(2,3) show ?thesis by blast
qed

lemma lookups_named:
  assumes "l \<in> set (lookups (extractDSXJobInfo env d flag))"
  shows "lk_name l \<noteq> []"
proof -
  from assms obtain m where "m \<in> set (exec_all lookupRegex d)" "l \<in> set (lookup_of m)"
    by (auto simp: result_lookups extract_lookups_def split: if_splits)
  then show ?thesis by (rule lookup_of_name)
qed

lemma block_sections:
  "sources (extractDSXJobInfo env d flag) =
     (if stage_lists_present d
      then concat (map (\<lambda>xmlMatch. fst (xml_block (stage_type_map d) d xmlMatch))
                       (exec_all xmlPropsRegex d))
      else [])
   \<and> targets (extractDSXJobInfo env d flag) =
     (if stage_lists_present d
      then concat (map (\<lambda>xmlMatch. fst (snd (xml_block (stage_type_map d) d xmlMatch)))
                       (exec_all xmlPropsRegex d))
           @ map (dataset_target d) (exec_all datasetRegex d)
      else [])
   \<and> sql_scripts (extractDSXJobInfo env d flag) =
     (if stage_lists_present d
      then concat (map (\<lambda>xmlMatch. snd (snd (xml_block (stage_type_map d) d xmlMatch)))
                       (exec_all xmlPropsRegex d))
      else [])"
  by (simp add: result_sources result_targets result_sql_scripts xml_blocks_def
      extract_dataset_targets_def comp_def)

text \<open>
  C4 (as amended). Every source, transform and lookup of the result has a non-empty name,
  and no target has an empty name. A property block whose owning stage name cannot be
  resolved (no \<open>Name "..."\<close> in the text since the last \<open>BEGIN DSRECORD\<close> before it) gives
  no source, no target and no SQL script. In a document that holds both stage lists the
  sources, the SQL scripts and the first targets of the result are what the property blocks
  give, each source and target under the name resolved for its block; a transform is stored
  for every transform block whose code yields a rule, under the name resolved for its
  record or, when the record header yields no name, under the literal \<open>unknown\<close>; and a
  dataset target is stored for every dataset field, after the targets of the property
  blocks. The name of a dataset target is the first \<open>Name "..."\<close> of the 500 characters
  before the field, and when these hold no \<open>Name "\<close> it has no name at all. A target
  without a name is a dataset target.
\<close>

theorem entity_names:
  \<open>(\<forall>s \<in> set (sources (extractDSXJobInfo env d flag)).
       src_name s \<noteq> []
     \<and> (\<exists>xmlMatch stageNameMatch.
           xmlMatch \<in> set (exec_all xmlPropsRegex d)
         \<and> preceding_record_name d (m_index xmlMatch) = Some stageNameMatch
         \<and> src_name s = cap stageNameMatch 1))
   \<and> (\<forall>t \<in> set (transforms (extractDSXJobInfo env d flag)).
       trx_name t \<noteq> []
     \<and> (\<exists>trxMatch. trxMatch \<in> set (exec_all trxRegex d)
          \<and> trx_name t = (case preceding_record_name d (m_index trxMatch) of
                             None \<Rightarrow> ''unknown''
                           | Some stageNameMatch \<Rightarrow> cap stageNameMatch 1)))
   \<and> (\<forall>l \<in> set (lookups (extractDSXJobInfo env d flag)). lk_name l \<noteq> [])
   \<and> (\<forall>t \<in> set (targets (extractDSXJobInfo env d flag)).
       tgt_name t \<noteq> Some []
     \<and> (tgt_name t = None \<longrightarrow> tgt_dataset t \<noteq> None \<and> tgt_columns t = None)
     \<and> ((\<exists>xmlMatch stageNameMatch.
            xmlMatch \<in> set (exec_all xmlPropsRegex d)
          \<and> preceding_record_name d (m_index xmlMatch) = Some stageNameMatch
          \<and> tgt_name t = Some (cap stageNameMatch 1))
        \<or> (\<exists>datasetMatch. datasetMatch \<in> set (exec_all datasetRegex d)
              \<and> t = dataset_target d datasetMatch)))
   \<and> (\<forall>xmlMatch. preceding_record_name d (m_index xmlMatch) = None \<longrightarrow>
          xml_block (stage_type_map d) d xmlMatch = ([], [], []))
   \<and> sources (extractDSXJobInfo env d flag) =
       (if stage_lists_present d
        then concat (map (\<lambda>xmlMatch. fst (xml_block (stage_type_map d) d xmlMatch))
                         (exec_all xmlPropsRegex d))
        else [])
   \<and> targets (extractDSXJobInfo env d flag) =
       (if stage_lists_present d
        then concat (map (\<lambda>xmlMatch. fst (snd (xml_block (stage_type_map d) d xmlMatch)))
                         (exec_all xmlPropsRegex d))
             @ map (dataset_target d) (exec_all datasetRegex d)
        else [])
   \<and> sql_scripts (extractDSXJobInfo env d flag) =
       (if stage_lists_present d
        then concat (map (\<lambda>xmlMatch. snd (snd (xml_block (stage_type_map d) d xmlMatch)))
                         (exec_all xmlPropsRegex d))
        else [])
   \<and> (\<forall>datasetMatch.
         tgt_name (dataset_target d datasetMatch) =
           map_option (\<lambda>stageNameMatch. cap stageNameMatch 1)
             (js_match nameRegex
                (js_substring d (m_index datasetMatch - 500) (m_index datasetMatch))))
   \<and> (\<forall>trxMatch \<in> set (exec_all trxRegex d).
         stage_lists_present d
         \<and> extract_rules (js_split [LF] (js_trim (cap trxMatch 1))) \<noteq> [] \<longrightarrow>
         (\<exists>t \<in> set (transforms (extractDSXJobInfo env d flag)).
            trx_name t = (case preceding_record_name d (m_index trxMatch) of
                            None \<Rightarrow> ''unknown''
                          | Some stageNameMatch \<Rightarrow> cap stageNameMatch 1)
          \<and> rules t = extract_rules (js_split [LF] (js_trim (cap trxMatch 1)))))
   \<and> (\<forall>datasetMatch n.
         tgt_name (dataset_target d datasetMatch) = Some n \<longrightarrow>
         n \<noteq> []
         \<and> (\<exists>pre post. js_substring d (m_index datasetMatch - 500) (m_index datasetMatch)
                         = pre @ ''Name "'' @ n @ ''"'' @ post))
   \<and> (\<forall>datasetMatch.
         \<not> js_includes (js_substring d (m_index datasetMatch - 500) (m_index datasetMatch))
                        ''Name "'' \<longrightarrow>
         tgt_name (dataset_target d datasetMatch) = None)\<close>
proof (intro conjI ballI allI impI)
  fix s assume "s \<in> set (sources (extractDSXJobInfo env d flag))"
  from sources_named[OF this] show "src_name s \<noteq> []"
    and "\<exists>xmlMatch stageNameMatch.
           xmlMatch \<in> set (exec_all xmlPropsRegex d)
         \<and> preceding_record_name d (m_index xmlMatch) = Some stageNameMatch
         \<and> src_name s = cap stageNameMatch 1" by blast+
next
  fix t assume "t \<in> set (transforms (extractDSXJobInfo env d flag))"
  from transforms_named[OF this] show "trx_name t \<noteq> []"
    and "\<exists>trxMatch. trxMatch \<in> set (exec_all trxRegex d)
          \<and> trx_name t = (case preceding_record_name d (m_index trxMatch) of
                             None \<Rightarrow> ''unknown''
                           | Some stageNameMatch \<Rightarrow> cap stageNameMatch 1)" by blast+
next
  fix l assume "l \<in> set (lookups (extractDSXJobInfo env d flag))"
  then show "lk_name l \<noteq> []" by (rule lookups_named)
next
  fix t assume t: "t \<in> set (targets (extractDSXJobInfo env d flag))"
  from targets_named[OF t] show "tgt_name t \<noteq> Some []" by blast
  from targets_named[OF t] show "(\<exists>xmlMatch stageNameMatch.
            xmlMatch \<in> set (exec_all xmlPropsRegex d)
          \<and> preceding_record_name d (m_index xmlMatch) = Some stageNameMatch
          \<and> tgt_name t = Some (cap stageNameMatch 1))
        \<or> (\<exists>datasetMatch. datasetMatch \<in> set (exec_all datasetRegex d)
              \<and> t = dataset_target d datasetMatch)" by blast
  assume "tgt_name t = None"
  with targets_named[OF t] show "tgt_dataset t \<noteq> None" and "tgt_columns t = None" by blast+
next
  fix xmlMatch :: rmatch assume "preceding_record_name d (m_index xmlMatch) = None"
  then show "xml_block (stage_type_map d) d xmlMatch = ([], [], [])"
    by (rule xml_block_unresolved)
next
  from block_sections[of env d flag]
  show "sources (extractDSXJobInfo env d flag) =
       (if stage_lists_present d
        then concat (map (\<lambda>xmlMatch. fst (xml_block (stage_type_map d) d xmlMatch))
                         (exec_all xmlPropsRegex d))
        else [])"
    and "targets (extractDSXJobInfo env d flag) =
       (if stage_lists_present d
        then concat (map (\<lambda>xmlMatch. fst (snd (xml_block (stage_type_map d) d xmlMatch)))
                         (exec_all xmlPropsRegex d))
             @ map (dataset_target d) (exec_all datasetRegex d)
        else [])"
    and "sql_scripts (extractDSXJobInfo env d flag) =
       (if stage_lists_present d
        then concat (map (\<lambda>xmlMatch. snd (snd (xml_block (stage_type_map d) d xmlMatch)))
                         (exec_all xmlPropsRegex d))
        else [])" by blast+
next
  fix datasetMatch :: rmatch
  from dataset_target_name[of d datasetMatch]
  show "tgt_name (dataset_target d datasetMatch) =
           map_option (\<lambda>stageNameMatch. cap stageNameMatch 1)
             (js_match nameRegex
                (js_substring d (m_index datasetMatch - 500) (m_index datasetMatch)))" by blast
next
  fix trxMatch :: rmatch
  assume "trxMatch \<in> set (exec_all trxRegex d)"
    and "stage_lists_present d
         \<and> extract_rules (js_split [LF] (js_trim (cap trxMatch 1))) \<noteq> []"
  then show "\<exists>t \<in> set (transforms (extractDSXJobInfo env d flag)).
            trx_name t = (case preceding_record_name d (m_index trxMatch) of
                            None \<Rightarrow> ''unknown''
                          | Some stageNameMatch \<Rightarrow> cap stageNameMatch 1)
          \<and> rules t = extract_rules (js_split [LF] (js_trim (cap trxMatch 1)))"
    using transforms_stored[of d trxMatch env flag] by blast
next
  fix datasetMatch :: rmatch and n
  assume n: "tgt_name (dataset_target d datasetMatch) = Some n"
  from dataset_target_named[OF n] show "n \<noteq> []"
    and \<open>\<exists>pre post. js_substring d (m_index datasetMatch - 500) (m_index datasetMatch)
                         = pre @ ''Name "'' @ n @ ''"'' @ post\<close> by blast+
next
  fix datasetMatch :: rmatch
  assume \<open>\<not> js_includes (js_substring d (m_index datasetMatch - 500) (m_index datasetMatch))
                        ''Name "''\<close>
  then show "tgt_name (dataset_target d datasetMatch) = None" by (rule dataset_target_nameless)
qed


lemma all_entities_doc_present: "stage_lists_present all_entities_doc"
  by code_simp

lemma all_entities_doc_blocks:
  "map src_name (concat (map fst (xml_blocks all_entities_doc))) = [''S1'']"
  "concat (map (\<lambda>b. fst (snd b)) (xml_blocks all_entities_doc)) = []"
  by code_simp+

lemma all_entities_doc_datasets:
  "map tgt_name (extract_dataset_targets all_entities_doc) = [Some ''S1'']"
  by code_simp

lemma all_entities_doc_sources:
  "map src_name (sources (extractDSXJobInfo sample_host all_entities_doc False)) = [''S1'']"
  by (simp add: result_sources all_entities_doc_present all_entities_doc_blocks)

lemma all_entities_doc_targets:
  "map tgt_name (targets (extractDSXJobInfo sample_host all_entities_doc False)) = [Some ''S1'']"
  by (simp add: result_targets all_entities_doc_present all_entities_doc_blocks
      all_entities_doc_datasets)

lemma all_entities_doc_transforms_found:
  "map trx_name (extract_transforms all_entities_doc) = [''S1'']"
  by code_simp

lemma all_entities_doc_transforms:
  "map trx_name (transforms (extractDSXJobInfo sample_host all_entities_doc False)) = [''S1'']"
  by (simp add: result_transforms all_entities_doc_present all_entities_doc_transforms_found)

lemma all_entities_doc_lookups_found:
  "map lk_name (extract_lookups all_entities_doc) = [''L1'']"
  by code_simp

lemma all_entities_doc_lookups:
  "map lk_name (lookups (extractDSXJobInfo sample_host all_entities_doc False)) = [''L1'']"
  by (simp add: result_lookups all_entities_doc_present all_entities_doc_lookups_found)

lemma nameless_dataset_doc_present: "stage_lists_present nameless_dataset_doc"
  by code_simp

lemma nameless_dataset_doc_blocks:
  "concat (map (\<lambda>b. fst (snd b)) (xml_blocks nameless_dataset_doc)) = []"
  by code_simp

lemma nameless_dataset_doc_datasets:
  "extract_dataset_targets nameless_dataset_doc =
     [\<lparr>tgt_name = None, tgt_type = Own ''dataset'', tgt_columns = None, tgt_table = None,
       tgt_dataset = Some ''out.ds'', tgt_mode = None, tgt_connection = None,
       tgt_database = None\<rparr>]"
  by code_simp

lemma nameless_dataset_doc_targets:
  "targets (extractDSXJobInfo sample_host nameless_dataset_doc False) =
     [\<lparr>tgt_name = None, tgt_type = Own ''dataset'', tgt_columns = None, tgt_table = None,
       tgt_dataset = Some ''out.ds'', tgt_mode = None, tgt_connection = None,
       tgt_database = None\<rparr>]"
  by (simp add: result_targets nameless_dataset_doc_present nameless_dataset_doc_blocks
      nameless_dataset_doc_datasets)

lemma nameless_dataset_doc_window:
  \<open>map (\<lambda>m. js_includes (js_substring nameless_dataset_doc (m_index m - 500) (m_index m))
                          ''Name "'')
       (exec_all datasetRegex nameless_dataset_doc) = [False]\<close>
  by code_simp

lemma all_entities_doc_dataset_name:
  "map (\<lambda>m. tgt_name (dataset_target all_entities_doc m))
       (exec_all datasetRegex all_entities_doc) = [Some ''S1'']"
  by code_simp

lemma headerless_doc_present: "stage_lists_present headerless_doc"
  by code_simp

lemma headerless_doc_blocks:
  "map (\<lambda>m. map_option (\<lambda>nm. cap nm 1) (preceding_record_name headerless_doc (m_index m)))
       (exec_all xmlPropsRegex headerless_doc) = [None]"
  by code_simp

lemma headerless_doc_transform_blocks:
  "map (\<lambda>m. (map_option (\<lambda>nm. cap nm 1) (preceding_record_name headerless_doc (m_index m)),
              extract_rules (js_split [LF] (js_trim (cap m 1)))))
       (exec_all trxRegex headerless_doc) = [(None, [''a = b''])]"
  by code_simp

lemma only_element:
  assumes "map g ms = [v]"
  shows "ms \<noteq> [] \<and> hd ms \<in> set ms \<and> g (hd ms) = v \<and> (\<forall>m \<in> set ms. g m = v)"
proof -
  from assms obtain m where "ms = [m]" by (cases ms) auto
  with assms show ?thesis by simp
qed

theorem entity_names_witness:
  \<open>sources (extractDSXJobInfo sample_host all_entities_doc False) \<noteq> []
   \<and> src_name (hd (sources (extractDSXJobInfo sample_host all_entities_doc False))) \<noteq> []
   \<and> transforms (extractDSXJobInfo sample_host all_entities_doc False) \<noteq> []
   \<and> trx_name (hd (transforms (extractDSXJobInfo sample_host all_entities_doc False))) \<noteq> []
   \<and> lookups (extractDSXJobInfo sample_host all_entities_doc False) \<noteq> []
   \<and> lk_name (hd (lookups (extractDSXJobInfo sample_host all_entities_doc False))) \<noteq> []
   \<and> targets (extractDSXJobInfo sample_host all_entities_doc False) \<noteq> []
   \<and> tgt_name (hd (targets (extractDSXJobInfo sample_host all_entities_doc False))) \<noteq> Some []
   \<and> targets (extractDSXJobInfo sample_host nameless_dataset_doc False) \<noteq> []
   \<and> tgt_name (hd (targets (extractDSXJobInfo sample_host nameless_dataset_doc False))) = None
   \<and> tgt_dataset (hd (targets (extractDSXJobInfo sample_host nameless_dataset_doc False))) \<noteq> None
   \<and> exec_all xmlPropsRegex headerless_doc \<noteq> []
   \<and> preceding_record_name headerless_doc
        (m_index (hd (exec_all xmlPropsRegex headerless_doc))) = None
   \<and> xml_block (stage_type_map headerless_doc) headerless_doc
        (hd (exec_all xmlPropsRegex headerless_doc)) = ([], [], [])
   \<and> stage_lists_present headerless_doc
   \<and> hd (exec_all trxRegex headerless_doc) \<in> set (exec_all trxRegex headerless_doc)
   \<and> preceding_record_name headerless_doc
        (m_index (hd (exec_all trxRegex headerless_doc))) = None
   \<and> extract_rules (js_split [LF] (js_trim (cap (hd (exec_all trxRegex headerless_doc)) 1)))
       = [''a = b'']
   \<and> (\<exists>t. t \<in> set (transforms (extractDSXJobInfo sample_host headerless_doc False))
          \<and> trx_name t = ''unknown'' \<and> rules t = [''a = b''])
   \<and> tgt_name (dataset_target all_entities_doc (hd (exec_all datasetRegex all_entities_doc)))
       = Some ''S1''
   \<and> (\<exists>pre post.
         js_substring all_entities_doc
           (m_index (hd (exec_all datasetRegex all_entities_doc)) - 500)
           (m_index (hd (exec_all datasetRegex all_entities_doc)))
         = pre @ ''Name "'' @ ''S1'' @ ''"'' @ post)
   \<and> \<not> js_includes
         (js_substring nameless_dataset_doc
            (m_index (hd (exec_all datasetRegex nameless_dataset_doc)) - 500)
            (m_index (hd (exec_all datasetRegex nameless_dataset_doc))))
         ''Name "''
   \<and> tgt_name (dataset_target nameless_dataset_doc
                  (hd (exec_all datasetRegex nameless_dataset_doc))) = None\<close>
proof -
  let ?r = "extractDSXJobInfo sample_host all_entities_doc False"
  let ?q = "extractDSXJobInfo sample_host nameless_dataset_doc False"
  let ?h = "extractDSXJobInfo sample_host headerless_doc False"
  note A = entity_names[of sample_host all_entities_doc False]
  note N = entity_names[of sample_host nameless_dataset_doc False]
  note H = entity_names[of sample_host headerless_doc False]
  have s: "sources ?r \<noteq> []" using all_entities_doc_sources by auto
  have x: "transforms ?r \<noteq> []" using all_entities_doc_transforms by auto
  have l: "lookups ?r \<noteq> []" using all_entities_doc_lookups by auto
  have t: "targets ?r \<noteq> []" using all_entities_doc_targets by auto
  have u: "targets ?q \<noteq> []" "tgt_name (hd (targets ?q)) = None"
    by (simp_all add: nameless_dataset_doc_targets)
  from s x l t have "hd (sources ?r) \<in> set (sources ?r)" "hd (transforms ?r) \<in> set (transforms ?r)"
    "hd (lookups ?r) \<in> set (lookups ?r)" "hd (targets ?r) \<in> set (targets ?r)" by simp_all
  with A
  have a: "src_name (hd (sources ?r)) \<noteq> []" "trx_name (hd (transforms ?r)) \<noteq> []"
    "lk_name (hd (lookups ?r)) \<noteq> []" "tgt_name (hd (targets ?r)) \<noteq> Some []" by blast+
  from u(1) have "hd (targets ?q) \<in> set (targets ?q)" by simp
  with N u(2)
  have b: "tgt_dataset (hd (targets ?q)) \<noteq> None" by blast
  from only_element[OF headerless_doc_blocks]
  have hb: "exec_all xmlPropsRegex headerless_doc \<noteq> []"
    "preceding_record_name headerless_doc
        (m_index (hd (exec_all xmlPropsRegex headerless_doc))) = None" by simp_all
  with H have hc: "xml_block (stage_type_map headerless_doc) headerless_doc
        (hd (exec_all xmlPropsRegex headerless_doc)) = ([], [], [])" by blast
  from only_element[OF headerless_doc_transform_blocks]
  have ht: "hd (exec_all trxRegex headerless_doc) \<in> set (exec_all trxRegex headerless_doc)"
    "preceding_record_name headerless_doc
        (m_index (hd (exec_all trxRegex headerless_doc))) = None"
    "extract_rules (js_split [LF] (js_trim (cap (hd (exec_all trxRegex headerless_doc)) 1)))
       = [''a = b'']" by simp_all
  from ht(3) have hr:
    "extract_rules (js_split [LF] (js_trim (cap (hd (exec_all trxRegex headerless_doc)) 1))) \<noteq> []"
    by simp
  from H ht(1) headerless_doc_present hr
  have "\<exists>t \<in> set (transforms ?h).
          trx_name t = (case preceding_record_name headerless_doc
                               (m_index (hd (exec_all trxRegex headerless_doc))) of
                          None \<Rightarrow> ''unknown'' | Some stageNameMatch \<Rightarrow> cap stageNameMatch 1)
        \<and> rules t = extract_rules (js_split [LF]
                       (js_trim (cap (hd (exec_all trxRegex headerless_doc)) 1)))" by blast
  with ht(2,3) have hu: "\<exists>t. t \<in> set (transforms ?h) \<and> trx_name t = ''unknown''
      \<and> rules t = [''a = b'']" by auto
  from only_element[OF all_entities_doc_dataset_name]
  have dn: "tgt_name (dataset_target all_entities_doc (hd (exec_all datasetRegex all_entities_doc)))
       = Some ''S1''" by simp
  with A have dw: \<open>\<exists>pre post.
         js_substring all_entities_doc
           (m_index (hd (exec_all datasetRegex all_entities_doc)) - 500)
           (m_index (hd (exec_all datasetRegex all_entities_doc)))
         = pre @ ''Name "'' @ ''S1'' @ ''"'' @ post\<close> by blast
  from only_element[OF nameless_dataset_doc_window]
  have nw: \<open>\<not> js_includes
         (js_substring nameless_dataset_doc
            (m_index (hd (exec_all datasetRegex nameless_dataset_doc)) - 500)
            (m_index (hd (exec_all datasetRegex nameless_dataset_doc))))
         ''Name "''\<close> by simp
  with N have nn: "tgt_name (dataset_target nameless_dataset_doc
                  (hd (exec_all datasetRegex nameless_dataset_doc))) = None" by blast
  from s x l t u a b hb hc headerless_doc_present ht hu dn dw nw nn
  show ?thesis by (intro conjI)
qed

text \<open>
  C4 as stated fails: in this document no \<open>Name "..."\<close> field precedes the dataset field,
  and the dataset target is stored with no name at all.
\<close>

theorem dataset_target_without_name:
  "targets (extractDSXJobInfo sample_host nameless_dataset_doc False) =
     [\<lparr>tgt_name = None, tgt_type = Own ''dataset'', tgt_columns = None, tgt_table = None,
       tgt_dataset = Some ''out.ds'', tgt_mode = None, tgt_connection = None,
       tgt_database = None\<rparr>]"
  by (rule nameless_dataset_doc_targets)

section \<open>C5: disconnected stages\<close>

lemma set_foldl_insert_new:
  "set (foldl (\<lambda>acc x. if x \<in> set acc then acc else acc @ [x]) acc xs) = set acc \<union> set xs"
  by (induction xs arbitrary: acc) auto

lemma set_set_of_array: "set (set_of_array xs) = set xs"
  by (simp add: set_of_array_def set_foldl_insert_new)

text \<open>
  C5 (as amended). Whenever the flow of a JobInfo is not empty and a stage name drawn from
  its sources, targets, transforms, lookups or specialized stages appears on neither the
  \<open>from\<close> side nor the \<open>to\<close> side of any flow connection, \<open>validateExtractedData\<close> returns
  \<open>valid = false\<close> and its issues hold the disconnected-stage message that names the stage.
  The validator is a function of the JobInfo alone: it changes nothing and always returns.
\<close>

theorem disconnected_stage_reported:
  assumes "flow data \<noteq> []"
    and "st \<in> set (map (\<lambda>s. Some (src_name s)) (sources data)) \<union> set (map tgt_name (targets data))
            \<union> set (map (\<lambda>t. Some (trx_name t)) (transforms data))
            \<union> set (map (\<lambda>l. Some (lk_name l)) (lookups data))
            \<union> set (map sp_name (specialized_stages data))"
    and "\<not> has_stage (map flow_from (flow data)) st"
    and "\<not> has_stage (map flow_to (flow data)) st"
  shows "\<not> valid (validateExtractedData data)
       \<and> disconnected_message st \<in> set (issues (validateExtractedData data))"
proof -
  from assms(2) have "st \<in> set (all_stages data)"
    by (simp add: all_stages_def set_set_of_array)
  with assms(1,3,4) have "disconnected_message st \<in> set (issues (validateExtractedData data))"
    by (auto simp: validateExtractedData_def Let_def)
  moreover from this have "issues (validateExtractedData data) \<noteq> []" by auto
  then have "\<not> valid (validateExtractedData data)"
    by (simp add: validateExtractedData_def Let_def)
  ultimately show ?thesis by simp
qed

lemma disconnected_doc_present: "stage_lists_present disconnected_doc"
  by code_simp

lemma disconnected_doc_blocks:
  "map src_name (concat (map fst (xml_blocks disconnected_doc))) = [''S1'']"
  by code_simp

lemma disconnected_doc_assembled:
  "extract_flow (member_text sample_host) (doc_stage_map disconnected_doc)
     (column_info_map disconnected_doc) disconnected_doc =
     [\<lparr>link = ''L'', flow_from = Own ''A'', flow_to = Own ''B'', flow_columns = None\<rparr>]"
  by code_simp

lemma disconnected_doc_sources:
  "map src_name (sources (extractDSXJobInfo sample_host disconnected_doc False)) = [''S1'']"
  by (simp add: result_sources disconnected_doc_present disconnected_doc_blocks)

lemma disconnected_doc_flow:
  "flow (extractDSXJobInfo sample_host disconnected_doc False) =
     [\<lparr>link = ''L'', flow_from = Own ''A'', flow_to = Own ''B'', flow_columns = None\<rparr>]"
  by (simp add: result_flow disconnected_doc_present disconnected_doc_assembled)

theorem disconnected_stage_reported_witness:
  "flow (extractDSXJobInfo sample_host disconnected_doc False) \<noteq> []
   \<and> map src_name (sources (extractDSXJobInfo sample_host disconnected_doc False)) = [''S1'']
   \<and> \<not> has_stage (map flow_from (flow (extractDSXJobInfo sample_host disconnected_doc False)))
         (Some ''S1'')
   \<and> \<not> has_stage (map flow_to (flow (extractDSXJobInfo sample_host disconnected_doc False)))
         (Some ''S1'')
   \<and> \<not> valid (validateExtractedData (extractDSXJobInfo sample_host disconnected_doc False))
   \<and> disconnected_message (Some ''S1'')
       \<in> set (issues (validateExtractedData (extractDSXJobInfo sample_host disconnected_doc False)))"
proof -
  let ?r = "extractDSXJobInfo sample_host disconnected_doc False"
  have f: "flow ?r \<noteq> []" by (simp add: disconnected_doc_flow)
  have "Some ''S1'' \<in> set (map (\<lambda>s. Some (src_name s)) (sources ?r))"
  proof -
    from disconnected_doc_sources have "''S1'' \<in> set (map src_name (sources ?r))" by simp
    then show ?thesis by auto
  qed
  then have m: "Some ''S1'' \<in> set (map (\<lambda>s. Some (src_name s)) (sources ?r))
      \<union> set (map tgt_name (targets ?r))
      \<union> set (map (\<lambda>t. Some (trx_name t)) (transforms ?r))
      \<union> set (map (\<lambda>l. Some (lk_name l)) (lookups ?r))
      \<union> set (map sp_name (specialized_stages ?r))" by simp
  have a: "\<not> has_stage (map flow_from (flow ?r)) (Some ''S1'')"
    and b: "\<not> has_stage (map flow_to (flow ?r)) (Some ''S1'')"
    by (simp_all add: disconnected_doc_flow has_stage_def)
  from disconnected_stage_reported[OF f m a b] f a b disconnected_doc_sources
  show ?thesis by simp
qed

text \<open>
  C5 as stated fails when the flow is empty: the extraction of this document has the source
  \<open>S1\<close> and no flow connection at all, so \<open>S1\<close> is on neither side of any connection, and
  the validator reports the JobInfo valid with no issue.
\<close>

lemma no_flow_doc_present: "stage_lists_present no_flow_doc"
  by code_simp

lemma no_flow_doc_blocks:
  "map src_name (concat (map fst (xml_blocks no_flow_doc))) = [''S1'']"
  by code_simp

lemma no_flow_doc_assembled:
  "extract_flow (member_text sample_host) (doc_stage_map no_flow_doc)
     (column_info_map no_flow_doc) no_flow_doc = []"
  by code_simp

lemma no_flow_doc_header:
  "job_name no_flow_doc = ''J''" "job_type_of no_flow_doc = Own ''Parallel Job''"
  by code_simp+

lemma no_flow_doc_sources:
  "map src_name (sources (extractDSXJobInfo sample_host no_flow_doc False)) = [''S1'']"
  by (simp add: result_sources no_flow_doc_present no_flow_doc_blocks)

lemma no_flow_doc_flow: "flow (extractDSXJobInfo sample_host no_flow_doc False) = []"
  by (simp add: result_flow no_flow_doc_present no_flow_doc_assembled)

lemma no_flow_doc_validation:
  "validateExtractedData (extractDSXJobInfo sample_host no_flow_doc False) =
     \<lparr>valid = True, issues = []\<rparr>"
proof -
  from no_flow_doc_sources have "sources (extractDSXJobInfo sample_host no_flow_doc False) \<noteq> []"
    by auto
  then show ?thesis
    by (simp add: validateExtractedData_def Let_def no_flow_doc_flow result_header
        no_flow_doc_header truthy_prop_def)
qed

theorem empty_flow_reports_valid:
  "map src_name (sources (extractDSXJobInfo sample_host no_flow_doc False)) = [''S1'']
   \<and> flow (extractDSXJobInfo sample_host no_flow_doc False) = []
   \<and> validateExtractedData (extractDSXJobInfo sample_host no_flow_doc False) =
       \<lparr>valid = True, issues = []\<rparr>"
  using no_flow_doc_sources no_flow_doc_flow no_flow_doc_validation by simp

section \<open>C6: lists of unequal length\<close>







section \<open>C7: the labels of the code maps\<close>

lemma job_type_known:
  "job_type_label ''0'' = Own ''Server Job''"
  "job_type_label ''1'' = Own ''Parallel Job''"
  "job_type_label ''2'' = Own ''Sequence Job''"
  "job_type_label ''3'' = Own ''Server Routine''"
  by (simp_all add: job_type_label_def jobTypeMap_def obj_get_def)

lemma param_type_known:
  "param_type_label ''1'' = Own ''String''"
  "param_type_label ''2'' = Own ''Integer''"
  "param_type_label ''3'' = Own ''Float''"
  "param_type_label ''4'' = Own ''Pathname''"
  "param_type_label ''5'' = Own ''List''"
  "param_type_label ''6'' = Own ''Date''"
  "param_type_label ''7'' = Own ''Time''"
  "param_type_label ''8'' = Own ''Timestamp''"
  "param_type_label ''13'' = Own ''EnvironmentVar''"
  by (simp_all add: param_type_label_def paramTypeMap_def obj_get_def)

lemma job_type_unknown:
  assumes "jobTypeMap code = None" and "code \<notin> set object_prototype_keys"
  shows "job_type_label code = Own (''Unknown ('' @ code @ '')'')"
  using assms by (simp add: job_type_label_def obj_get_def)

lemma param_type_unknown:
  assumes "paramTypeMap code = None" and "code \<notin> set object_prototype_keys"
  shows "param_type_label code = Own (''Unknown ('' @ code @ '')'')"
  using assms by (simp add: param_type_label_def obj_get_def)

lemma sql_type_unknown:
  assumes "typeMap code = None" and "code \<notin> set object_prototype_keys"
  shows "mapSqlType code precision scale = Own (''UNKNOWN('' @ code @ '')'')"
  using assms by (simp add: mapSqlType_def obj_get_def Let_def)

lemma inherited_code_doc_type:
  "job_type (extractDSXJobInfo sample_host inherited_code_doc False) = Inherited ''constructor''"
proof -
  have "job_type_of inherited_code_doc = Inherited ''constructor''" by code_simp
  then show ?thesis by (simp add: result_header)
qed

text \<open>
  C7. The label of a code outside its table is \<open>Unknown (<code>)\<close>, and \<open>UNKNOWN(<code>)\<close> for
  an SQL type code. The tables are object literals, so a code that names a member of
  \<open>Object.prototype\<close> finds that member instead of \<open>undefined\<close>: for the codes
  \<open>constructor\<close>, \<open>toString\<close> and \<open>valueOf\<close>, none of them in a table, the label is the
  inherited member and not the \<open>Unknown\<close> string, and a document with the job type code
  \<open>constructor\<close> gets that member as its type. (For the codes of the tables, and for every
  other code that is not such a member name, the labels are as documented:
  \<open>job_type_known\<close>, \<open>param_type_known\<close>, \<open>job_type_unknown\<close>, \<open>param_type_unknown\<close>,
  \<open>sql_type_unknown\<close>.)
\<close>

theorem code_map_inherited_key:
  "jobTypeMap ''constructor'' = None
   \<and> job_type_label ''constructor'' = Inherited ''constructor''
   \<and> job_type_label ''constructor'' \<noteq> Own ''Unknown (constructor)''
   \<and> job_type (extractDSXJobInfo sample_host inherited_code_doc False) = Inherited ''constructor''
   \<and> paramTypeMap ''toString'' = None
   \<and> param_type_label ''toString'' = Inherited ''toString''
   \<and> typeMap ''valueOf'' = None
   \<and> mapSqlType ''valueOf'' (Some ''0'') (Some ''0'') = Inherited ''valueOf''"
  using inherited_code_doc_type
  by (simp add: job_type_label_def param_type_label_def mapSqlType_def jobTypeMap_def
      paramTypeMap_def typeMap_def obj_get_def object_prototype_keys_def)

section \<open>C8: the WHERE clauses of a source\<close>

lemma upper_fixed: "a \<in> set ''ABCDEFGHIJKLMNOPQRSTUVWXYZ'' \<Longrightarrow> upper a = a"
proof -
  assume "a \<in> set ''ABCDEFGHIJKLMNOPQRSTUVWXYZ''"
  then have "a \<notin> set ''abcdefghijklmnopqrstuvwxyz''" by auto
  then have "map_of (zip ''abcdefghijklmnopqrstuvwxyz'' ''ABCDEFGHIJKLMNOPQRSTUVWXYZ'') a = None"
    by (metis map_of_zip_is_None length_Cons)
  then show ?thesis by (simp add: upper_def)
qed

lemma upper_letter_word:
  assumes "upper a = upper x" and "a \<in> set ''ABCDEFGHIJKLMNOPQRSTUVWXYZ''"
  shows "is_word x"
proof (cases "map_of (zip ''abcdefghijklmnopqrstuvwxyz'' ''ABCDEFGHIJKLMNOPQRSTUVWXYZ'') x")
  case None
  then have "upper x = x" by (simp add: upper_def)
  with assms upper_fixed[OF assms(2)] have "x = a" by simp
  with assms(2) show ?thesis by (auto simp: is_word_def)
next
  case (Some u)
  then have "x \<in> set ''abcdefghijklmnopqrstuvwxyz''"
    by (meson map_of_SomeD set_zip_leftD)
  then show ?thesis by (auto simp: is_word_def)
qed

lemma prefix_i_nth:
  "prefix_i kw s \<Longrightarrow> i < length kw \<Longrightarrow> i < length s \<and> upper (kw ! i) = upper (s ! i)"
proof (induction kw s arbitrary: i rule: prefix_i.induct)
  case (3 a as x xs)
  then show ?case by (cases i) auto
qed auto

lemma is_space_not_word: "is_space c \<Longrightarrow> \<not> is_word c"
  by (auto simp: is_space_def is_word_def)

lemma mt_keyword:
  assumes "kw \<noteq> []"
    and "hd kw \<in> set ''ABCDEFGHIJKLMNOPQRSTUVWXYZ''"
    and "last kw \<in> set ''ABCDEFGHIJKLMNOPQRSTUVWXYZ''"
  shows "mt (keywordRegex kw) p s c k =
           (if keyword_at kw p s then k (Some (s ! (length kw - 1))) (drop (length kw) s) c
            else None)"
proof (cases "prefix_i kw s")
  case False
  then show ?thesis by (simp add: keywordRegex_def keyword_at_def)
next
  case True
  from assms(1) have l0: "0 < length kw" by simp
  from prefix_i_nth[OF True l0] have s0: "0 < length s" "upper (kw ! 0) = upper (s ! 0)" by simp_all
  from assms(1,2) have "kw ! 0 \<in> set ''ABCDEFGHIJKLMNOPQRSTUVWXYZ''" by (simp add: hd_conv_nth)
  with s0(2) have w0: "is_word (s ! 0)" by (rule upper_letter_word)
  from s0(1) have nx: "word_at (next_char s) = is_word (s ! 0)"
    by (cases s) (simp_all add: word_at_def next_char_def)
  from l0 have l1: "length kw - 1 < length kw" by simp
  from prefix_i_nth[OF True l1] have s1: "length kw - 1 < length s"
    "upper (kw ! (length kw - 1)) = upper (s ! (length kw - 1))" by simp_all
  from assms(1,3) have "kw ! (length kw - 1) \<in> set ''ABCDEFGHIJKLMNOPQRSTUVWXYZ''"
    by (simp add: last_conv_nth)
  with s1(2) have w1: "is_word (s ! (length kw - 1))" by (rule upper_letter_word)
  from s1(1) l0 have le: "length kw \<le> length s" by simp
  with l0 have tk: "take (length kw) s \<noteq> []" by auto
  from le have "length (take (length kw) s) = length kw" by simp
  with tk l1 have "last (take (length kw) s) = s ! (length kw - 1)"
    by (metis last_conv_nth nth_take)
  with tk have pa: "prev_after p (take (length kw) s) = Some (s ! (length kw - 1))"
    by (simp add: prev_after_def)
  from True w0 w1 nx pa show ?thesis
    by (simp add: keywordRegex_def keyword_at_def word_at_def)
qed

lemma mt_terminator:
  "mt terminatorRegex p s c (\<lambda>p' s' c'. Some (p', s', c')) =
     map_option (\<lambda>(p', s'). (p', s', c)) (terminator_end p s)"
  by (simp add: terminatorRegex_def terminator_end_def mt_keyword eval_nat_numeral)

lemma star_l_first:
  assumes "\<forall>x \<in> set t. cmem cl x"
    and "\<And>p' s'. (G p' s' \<noteq> None) = ok p' s'"
  shows "star_l cl p t G = G (fst (skip_to ok p t)) (snd (skip_to ok p t))"
  using assms(1)
proof (induction t arbitrary: p)
  case Nil
  then show ?case by simp
next
  case (Cons x xs)
  show ?case
  proof (cases "ok p (x # xs)")
    case True
    with assms(2)[of p "x # xs"] obtain r where "G p (x # xs) = Some r" by auto
    with True show ?thesis by simp
  next
    case False
    with assms(2)[of p "x # xs"] have "G p (x # xs) = None" by auto
    with False Cons show ?thesis by simp
  qed
qed

lemma star_g_greedy:
  assumes "k (prev_after p (takeWhile (cmem cl) s)) (dropWhile (cmem cl) s) = Some y"
  shows "star_g cl p s k = Some y"
  using assms
proof (induction s arbitrary: p)
  case Nil
  then show ?case by (simp add: prev_after_def)
next
  case (Cons x xs)
  show ?case
  proof (cases "cmem cl x")
    case False
    with Cons.prems show ?thesis by (simp add: prev_after_def)
  next
    case True
    have "prev_after p (x # takeWhile (cmem cl) xs) = prev_after (Some x) (takeWhile (cmem cl) xs)"
      by (simp add: prev_after_def)
    with Cons.prems True
    have "k (prev_after (Some x) (takeWhile (cmem cl) xs)) (dropWhile (cmem cl) xs) = Some y"
      by simp
    from Cons.IH[OF this] True show ?thesis by simp
  qed
qed

lemma terminator_end_Nil: "terminator_end p [] = Some (p, [])"
  by (simp add: terminator_end_def keyword_at_def)

lemma skip_to_terminator:
  "t = predicate_text p t @ snd (skip_to (\<lambda>p' s'. terminator_end p' s' \<noteq> None) p t)
   \<and> terminator_end (fst (skip_to (\<lambda>p' s'. terminator_end p' s' \<noteq> None) p t))
        (snd (skip_to (\<lambda>p' s'. terminator_end p' s' \<noteq> None) p t)) = Some (after_predicate p t)"
proof (induction t arbitrary: p)
  case Nil
  then show ?case by (simp add: terminator_end_Nil)
next
  case (Cons x xs)
  then show ?case by (cases "terminator_end p (x # xs)") auto
qed

lemma capture_lazy_terminator:
  assumes "\<forall>x \<in> set t. cmem CDot x"
  shows "mt (Seq (Grp 1 (LazyStar CDot)) terminatorRegex) p t c (\<lambda>p' s' c'. Some (p', s', c')) =
           Some (fst (after_predicate p t), snd (after_predicate p t), c(1 \<mapsto> predicate_text p t))"
proof -
  define ok where "ok = (\<lambda>p' s'. terminator_end p' s' \<noteq> None)"
  define G where "G = (\<lambda>p' s'. mt terminatorRegex p' s' (c(1 \<mapsto> take (length t - length s') t))
                      (\<lambda>p' s' c'. Some (p', s', c')))"
  define q where "q = fst (skip_to ok p t)"
  define r where "r = snd (skip_to ok p t)"
  have okG: "(G p' s' \<noteq> None) = ok p' s'" for p' s'
    by (simp add: G_def ok_def mt_terminator)
  from skip_to_terminator[of t p] have sp: "t = predicate_text p t @ r"
    and te: "terminator_end q r = Some (after_predicate p t)"
    by (simp_all add: q_def r_def ok_def)
  from sp have "length t = length (predicate_text p t) + length r"
    by (metis length_append)
  then have "length t - length r = length (predicate_text p t)" by simp
  with sp have tk: "take (length t - length r) t = predicate_text p t"
    by (metis append_eq_conv_conj)
  have "mt (Seq (Grp 1 (LazyStar CDot)) terminatorRegex) p t c (\<lambda>p' s' c'. Some (p', s', c'))
      = star_l CDot p t G" by (simp add: G_def)
  also have "\<dots> = G (fst (skip_to ok p t)) (snd (skip_to ok p t))"
    using assms okG by (rule star_l_first)
  also have "\<dots> = G q r" by (simp add: q_def r_def)
  also have "\<dots> = map_option (\<lambda>(p', s'). (p', s', c(1 \<mapsto> take (length t - length r) t)))
                      (terminator_end q r)"
    unfolding G_def by (rule mt_terminator)
  also have "\<dots> = Some (fst (after_predicate p t), snd (after_predicate p t),
      c(1 \<mapsto> predicate_text p t))"
    unfolding te tk by (simp split: prod.splits)
  finally show ?thesis .
qed

lemma match_here_where:
  assumes "\<forall>x \<in> set s. cmem CDot x"
  shows "match_here whereRegex p s =
           (if where_here p s
            then (case where_body s of (pb, t) \<Rightarrow>
                    Some (fst (after_predicate pb t), snd (after_predicate pb t),
                          [1 \<mapsto> predicate_text pb t]))
            else None)"
proof (cases "keyword_at ''WHERE'' p s")
  case False
  then have "\<not> where_here p s"
    by (auto simp: keyword_at_def where_here_def next_char_def word_at_def eval_nat_numeral
        split: list.splits dest: is_space_not_word)
  with False show ?thesis
    by (simp add: match_here_def whereRegex_def mt_keyword)
next
  case True
  show ?thesis
  proof (cases "drop 5 s")
    case Nil
    with True show ?thesis
      by (simp add: match_here_def whereRegex_def mt_keyword where_here_def eval_nat_numeral)
  next
    case (Cons x xs)
    show ?thesis
    proof (cases "is_space x")
      case False
      with True Cons show ?thesis
        by (simp add: match_here_def whereRegex_def mt_keyword where_here_def eval_nat_numeral)
    next
      case sp: True
      with True Cons have wh: "where_here p s"
        by (simp add: keyword_at_def where_here_def eval_nat_numeral)
      let ?t = "dropWhile is_space xs"
      let ?pb = "prev_after (Some x) (takeWhile is_space xs)"
      have "set ?t \<subseteq> set xs" by (rule set_dropWhileD[THEN subsetI])
      moreover from Cons have "set xs \<subseteq> set s" by (metis set_drop_subset set_subset_Cons subset_trans)
      ultimately have cd: "\<forall>y \<in> set ?t. cmem CDot y" using assms by blast
      have k: "mt (Seq (Grp 1 (LazyStar CDot)) terminatorRegex) ?pb ?t Map.empty
                 (\<lambda>p' s' c'. Some (p', s', c')) =
               Some (fst (after_predicate ?pb ?t), snd (after_predicate ?pb ?t),
                     [1 \<mapsto> predicate_text ?pb ?t])"
        using cd by (rule capture_lazy_terminator)
      have cm: "cmem CSpace = is_space" by (rule ext) simp
      have g: "star_g CSpace (Some x) xs
                 (\<lambda>p' s'. mt (Seq (Grp 1 (LazyStar CDot)) terminatorRegex) p' s' Map.empty
                             (\<lambda>p' s' c'. Some (p', s', c'))) =
               Some (fst (after_predicate ?pb ?t), snd (after_predicate ?pb ?t),
                     [1 \<mapsto> predicate_text ?pb ?t])"
        by (rule star_g_greedy) (simp only: cm k)
      from sp Cons have wb: "where_body s = (?pb, ?t)"
        by (simp add: where_body_def prev_after_def eval_nat_numeral)
      from True Cons sp g wh wb show ?thesis
        by (simp add: match_here_def whereRegex_def mt_keyword eval_nat_numeral)
    qed
  qed
qed

lemma js_trim_Nil: "js_trim [] = []"
  by (simp add: js_trim_def)

lemma where_not_nullable: "\<not> nullable whereRegex"
  by (simp add: whereRegex_def keywordRegex_def)

lemma exec_loop_where:
  assumes "\<forall>x \<in> set s. cmem CDot x"
  shows "concat (map (\<lambda>m. if cap m 1 \<noteq> [] \<and> js_trim (cap m 1) \<noteq> [] then [js_trim (cap m 1)] else [])
                     (exec_loop whereRegex p i s)) = where_clauses_from p s"
  using assms
proof (induction p s arbitrary: i rule: where_clauses_from.induct)
  case (1 p)
  have "match_here whereRegex p [] = None"
    using match_here_where[of "[]" p] by (simp add: where_here_def)
  then show ?case by (simp add: exec_loop.simps[of whereRegex p i "[]"] where_not_nullable)
next
  case (2 p x xs)
  note cd = "2.prems"
  show ?case
  proof (cases "where_here p (x # xs)")
    case False
    with match_here_where[OF cd, of p] have "match_here whereRegex p (x # xs) = None" by simp
    then have "exec_loop whereRegex p i (x # xs) = exec_loop whereRegex (Some x) (Suc i) xs"
      by (simp add: exec_loop.simps[of whereRegex p i "x # xs"]
          exec_loop.simps[of whereRegex "Some x" "Suc i" xs] where_not_nullable)
    moreover from cd have "\<forall>y \<in> set xs. cmem CDot y" by simp
    ultimately show ?thesis using "2.IH"(2)[OF False] False by simp
  next
    case True
    obtain pb t where wb: "where_body (x # xs) = (pb, t)" by (cases "where_body (x # xs)")
    let ?p' = "fst (after_predicate pb t)"
    let ?rest = "snd (after_predicate pb t)"
    from match_here_where[OF cd, of p] True wb
    have mh: "match_here whereRegex p (x # xs) = Some (?p', ?rest, [1 \<mapsto> predicate_text pb t])"
      by simp
    define m where "m = \<lparr>m_index = i, m_text = take (Suc (length xs) - length ?rest) (x # xs),
        m_caps = [1 \<mapsto> predicate_text pb t], m_prev = ?p', m_rest = ?rest\<rparr>"
    from mh have se: "search whereRegex p i (x # xs) = Some m" by (simp add: m_def)
    then have el: "exec_loop whereRegex p i (x # xs) =
        m # exec_loop whereRegex ?p' (m_index m + length (m_text m)) ?rest"
      by (simp add: exec_loop.simps[of whereRegex p i "x # xs"] where_not_nullable m_def)
    have c1: "cap m 1 = predicate_text pb t" by (simp add: cap_def m_def)
    from wb have "t = dropWhile is_space (drop 5 (x # xs))" by (simp add: where_body_def)
    then have "set t \<subseteq> set (x # xs)"
      by (metis set_dropWhileD set_drop_subset subsetI subset_trans)
    moreover from after_predicate_suffix[of t pb] have "set ?rest \<subseteq> set t" by (metis set_append sup_ge2)
    ultimately have "\<forall>y \<in> set ?rest. cmem CDot y" using cd by blast
    from "2.IH"(1)[OF True wb[symmetric] this, of "m_index m + length (m_text m)"] el c1 True wb
    show ?thesis by (simp add: js_trim_Nil)
  qed
qed

text \<open>On a statement without line terminators the pattern of the source and the scan of
  the specification find the same predicates.\<close>

lemma extractWhereClauses_spec:
  assumes "\<forall>x \<in> set sql. cmem CDot x"
  shows "extractWhereClauses sql = where_clauses_spec sql"
  using exec_loop_where[OF assms, of None 0]
  by (simp add: extractWhereClauses_def where_clauses_spec_def exec_all_def)

lemma star_g_total:
  assumes "\<And>p s. k p s \<noteq> None"
  shows "star_g cl p s k \<noteq> None"
proof (induction s arbitrary: p)
  case Nil
  then show ?case using assms by simp
next
  case (Cons x xs)
  then show ?case using assms by (auto split: option.splits)
qed

lemma match_here_ws:
  "(match_here wsRegex p (x # xs) = None) = (\<not> is_space x)"
  using star_g_total[of "\<lambda>p' s'. Some (p', s', Map.empty)" CSpace "Some x" xs]
  by (auto simp: match_here_def wsRegex_def)

lemma match_here_ws_Nil: "match_here wsRegex p [] = None"
  by (simp add: match_here_def wsRegex_def)

lemma search_ws_none: "search wsRegex p i s = None \<Longrightarrow> \<forall>x \<in> set s. \<not> is_space x"
proof (induction s arbitrary: p i)
  case Nil
  then show ?case by simp
next
  case (Cons x xs)
  from Cons.prems have mh: "match_here wsRegex p (x # xs) = None"
    by (auto split: option.splits)
  with Cons.prems have "search wsRegex (Some x) (Suc i) xs = None" by simp
  from Cons.IH[OF this] mh show ?case by (simp add: match_here_ws)
qed

lemma search_ws_some:
  "search wsRegex p i s = Some m \<Longrightarrow> \<forall>x \<in> set (take (m_index m - i) s). \<not> is_space x"
proof (induction s arbitrary: p i)
  case Nil
  then show ?case by simp
next
  case (Cons x xs)
  show ?case
  proof (cases "match_here wsRegex p (x # xs)")
    case (Some r)
    with Cons.prems have "m_index m = i" by (auto split: prod.splits)
    then show ?thesis by simp
  next
    case None
    with Cons.prems have se: "search wsRegex (Some x) (Suc i) xs = Some m" by simp
    from search_sound[OF se] have "Suc i \<le> m_index m" by auto
    then have "take (m_index m - i) (x # xs) = x # take (m_index m - Suc i) xs"
      by (simp add: take_Cons' Suc_diff_le)
    with Cons.IH[OF se] None show ?thesis by (simp add: match_here_ws)
  qed
qed

lemma search_rest_subset: "search r p i s = Some m \<Longrightarrow> set (m_rest m) \<subseteq> set s"
  by (drule search_sound) auto

lemma replace_ws_chars:
  "\<forall>x \<in> set (replace_loop wsRegex '' '' p s). x = CHR '' '' \<or> \<not> is_space x"
proof (induction wsRegex "'' ''" p s rule: replace_loop.induct)
  case (1 p s)
  have nn: "\<not> nullable wsRegex" by (simp add: wsRegex_def)
  show ?case
  proof (cases "search wsRegex p 0 s")
    case None
    with search_ws_none[OF None] nn show ?thesis
      by (simp add: replace_loop.simps[of wsRegex "'' ''" p s])
  next
    case (Some m)
    from search_ws_some[OF Some] have "\<forall>x \<in> set (take (m_index m) s). \<not> is_space x" by simp
    with "1.hyps"[OF nn Some] Some nn show ?thesis
      by (auto simp: replace_loop.simps[of wsRegex "'' ''" p s])
  qed
qed

lemma replace_loop_chars: "set (replace_loop r rep p s) \<subseteq> set s \<union> set rep"
proof (induction r rep p s rule: replace_loop.induct)
  case (1 r rep p s)
  show ?case
  proof (cases "nullable r")
    case True
    then show ?thesis by (simp add: replace_loop.simps[of r rep p s])
  next
    case False
    show ?thesis
    proof (cases "search r p 0 s")
      case None
      with False show ?thesis by (simp add: replace_loop.simps[of r rep p s])
    next
      case (Some m)
      from "1.IH"[OF False Some] search_rest_subset[OF Some]
      have "set (replace_loop r rep (m_prev m) (m_rest m)) \<subseteq> set s \<union> set rep" by blast
      moreover have "set (take (m_index m) s) \<subseteq> set s" by (rule set_take_subset)
      ultimately show ?thesis using False Some
        by (auto simp: replace_loop.simps[of r rep p s])
    qed
  qed
qed

lemma normalize_sql_chars: "\<forall>x \<in> set (normalize_sql raw). cmem CDot x"
proof
  fix x assume "x \<in> set (normalize_sql raw)"
  with replace_loop_chars[of commentRegex "[]" None "js_replace_all wsRegex '' '' (js_trim raw)"]
  have "x \<in> set (replace_loop wsRegex '' '' None (js_trim raw))"
    by (auto simp: normalize_sql_def js_replace_all_def)
  with replace_ws_chars[of None "js_trim raw"] have "x = CHR '' '' \<or> \<not> is_space x" by blast
  then show "cmem CDot x" by (auto simp: is_space_def)
qed

lemma where_clauses_spec_Nil: "where_clauses_spec [] = []"
  by (simp add: where_clauses_spec_def)

text \<open>Every source of the result is the record built from one of the property blocks
  whose context reads 1.\<close>

lemma result_sources_built:
  assumes "s \<in> set (sources (extractDSXJobInfo env d flag))"
  shows "\<exists>xmlMatch cm. xmlMatch \<in> set (exec_all xmlPropsRegex d)
           \<and> js_match contextRegex (cap xmlMatch 1) = Some cm \<and> parseInt (cap cm 1) = Some 1
           \<and> s = build_source (stage_type_map d) (src_name s) (cap xmlMatch 1)
           \<and> keep_source s"
proof -
  from assms obtain xm where xm: "xm \<in> set (exec_all xmlPropsRegex d)"
    and s: "s \<in> set (fst (xml_block (stage_type_map d) d xm))"
    by (auto simp: result_sources xml_blocks_def split: if_splits)
  from s obtain nm cm where
    "js_match contextRegex (cap xm 1) = Some cm" "parseInt (cap cm 1) = Some 1"
    "s = build_source (stage_type_map d) (cap nm 1) (cap xm 1)" "keep_source s"
    by (auto simp: xml_block_def Let_def split: option.splits if_splits)
  moreover from this have "src_name s = cap nm 1" by (simp add: build_source_def Let_def)
  ultimately show ?thesis using xm by auto
qed

text \<open>
  C8 (as amended). For a source-context property block whose CDATA-wrapped select statement,
  once normalised, holds a \<open>WHERE\<close> clause in the sense of the scan above, the source record
  built from the block has no table field; its sql field is the select text trimmed, with
  every run of white space replaced by one space and, after that, every \<open>/* ... */\<close> comment
  removed; its where_clauses field is the list of predicates the scan finds in that text;
  and the record is kept.
\<close>

theorem source_where_clauses:
  assumes "cdata_of True ''SelectStatement'' xmlContent = Some raw"
    and "where_clauses_spec (normalize_sql raw) \<noteq> []"
  shows "src_table (build_source stageTypeMap stageName xmlContent) = None
       \<and> src_sql (build_source stageTypeMap stageName xmlContent) = Some (normalize_sql raw)
       \<and> src_where_clauses (build_source stageTypeMap stageName xmlContent) =
           Some (where_clauses_spec (normalize_sql raw))
       \<and> keep_source (build_source stageTypeMap stageName xmlContent)"
proof -
  from assms(2) where_clauses_spec_Nil have ne: "normalize_sql raw \<noteq> []" by auto
  have eq: "extractWhereClauses (normalize_sql raw) = where_clauses_spec (normalize_sql raw)"
    using normalize_sql_chars by (rule extractWhereClauses_spec)
  from assms ne eq show ?thesis
    by (simp add: build_source_def keep_source_def truthy_def Let_def)
qed

lemma scenario_block_select:
  "cdata_of True ''SelectStatement'' scenario_block =
     Some (''SELECT * FROM CUSTOMERS WHERE STATUS = '' @ [CHR 0x27] @ ''A'' @ [CHR 0x27])"
  by code_simp

lemma scenario_sql_normal:
  "normalize_sql (''SELECT * FROM CUSTOMERS WHERE STATUS = '' @ [CHR 0x27] @ ''A'' @ [CHR 0x27]) =
     ''SELECT * FROM CUSTOMERS WHERE STATUS = '' @ [CHR 0x27] @ ''A'' @ [CHR 0x27]"
  by code_simp

lemma scenario_sql_clauses:
  "where_clauses_spec (''SELECT * FROM CUSTOMERS WHERE STATUS = '' @ [CHR 0x27] @ ''A'' @ [CHR 0x27]) =
     [''STATUS = '' @ [CHR 0x27] @ ''A'' @ [CHR 0x27]]"
  by code_simp

theorem source_where_clauses_witness:
  "cdata_of True ''SelectStatement'' scenario_block =
     Some (''SELECT * FROM CUSTOMERS WHERE STATUS = '' @ [CHR 0x27] @ ''A'' @ [CHR 0x27])
   \<and> where_clauses_spec
        (normalize_sql (''SELECT * FROM CUSTOMERS WHERE STATUS = '' @ [CHR 0x27] @ ''A'' @ [CHR 0x27]))
       \<noteq> []
   \<and> src_table (build_source Map.empty ''CustomerExtract'' scenario_block) = None
   \<and> src_sql (build_source Map.empty ''CustomerExtract'' scenario_block) =
       Some (''SELECT * FROM CUSTOMERS WHERE STATUS = '' @ [CHR 0x27] @ ''A'' @ [CHR 0x27])
   \<and> src_where_clauses (build_source Map.empty ''CustomerExtract'' scenario_block) =
       Some [''STATUS = '' @ [CHR 0x27] @ ''A'' @ [CHR 0x27]]"
proof -
  have ne: "where_clauses_spec
        (normalize_sql (''SELECT * FROM CUSTOMERS WHERE STATUS = '' @ [CHR 0x27] @ ''A'' @ [CHR 0x27]))
       \<noteq> []"
    by (simp only: scenario_sql_normal scenario_sql_clauses) simp
  from source_where_clauses[OF scenario_block_select ne, of Map.empty "''CustomerExtract''"]
    scenario_block_select ne scenario_sql_normal scenario_sql_clauses
  show ?thesis by simp
qed

text \<open>
  C8 as stated fails. The statement of the first document holds two \<open>WHERE\<close> clauses, the
  second inside the predicate of the first: where_clauses has the one predicate that runs to
  the end of the statement and not the predicate \<open>z = 1)\<close> of the inner clause. In the second
  block \<open>WHERE\<close> is followed by a parenthesis and not by white space: the record has the
  statement and no where_clauses at all.
\<close>

lemma nested_where_doc_present: "stage_lists_present nested_where_doc"
  by code_simp

lemma nested_where_doc_blocks:
  "map (\<lambda>s. (src_sql s, src_where_clauses s)) (concat (map fst (xml_blocks nested_where_doc))) =
     [(Some ''SELECT a FROM t WHERE x IN (SELECT y FROM u WHERE z = 1)'',
       Some [''x IN (SELECT y FROM u WHERE z = 1)''])]"
  by code_simp

lemma nested_where_doc_sources:
  "map (\<lambda>s. (src_sql s, src_where_clauses s))
       (sources (extractDSXJobInfo sample_host nested_where_doc False)) =
     [(Some ''SELECT a FROM t WHERE x IN (SELECT y FROM u WHERE z = 1)'',
       Some [''x IN (SELECT y FROM u WHERE z = 1)''])]"
  by (simp add: result_sources nested_where_doc_present nested_where_doc_blocks)

lemma where_paren_block_source:
  "src_sql (build_source Map.empty ''S1'' where_paren_block) = Some ''SELECT a FROM t WHERE(x = 1)''
   \<and> src_where_clauses (build_source Map.empty ''S1'' where_paren_block) = None"
  by code_simp

theorem where_clause_left_out:
  "map (\<lambda>s. (src_sql s, src_where_clauses s))
       (sources (extractDSXJobInfo sample_host nested_where_doc False)) =
     [(Some ''SELECT a FROM t WHERE x IN (SELECT y FROM u WHERE z = 1)'',
       Some [''x IN (SELECT y FROM u WHERE z = 1)''])]
   \<and> src_sql (build_source Map.empty ''S1'' where_paren_block) = Some ''SELECT a FROM t WHERE(x = 1)''
   \<and> src_where_clauses (build_source Map.empty ''S1'' where_paren_block) = None"
  using nested_where_doc_sources where_paren_block_source by simp

section \<open>C9: the description\<close>

text \<open>
  C9. The description is the first paragraph of the description block. The paragraph break
  the source looks for is \<open>\r\n\r\n\<close> only: with CRLF line endings the description is the
  first paragraph, and with LF line endings the block is never split and the description is
  the whole block, the blank line turned into two spaces.
\<close>

theorem description_first_paragraph_crlf_only:
  "job_description crlf_description_doc = ''para1''
   \<and> description (extractDSXJobInfo sample_host crlf_description_doc False) = ''para1''
   \<and> job_description lf_description_doc = ''para1  para2''
   \<and> description (extractDSXJobInfo sample_host lf_description_doc False) = ''para1  para2''"
proof -
  have a: "job_description crlf_description_doc = ''para1''" by code_simp
  have b: "job_description lf_description_doc = ''para1  para2''" by code_simp
  from a b show ?thesis by (simp add: result_header)
qed

section \<open>C10: the token count\<close>











end
